theory Spec2Isabelle
  imports Main "HOL-Library.Sublist" "HOL-Library.AList"
begin

section \<open>JavaScript containers and strings\<close>

text \<open>
  A JavaScript \<^verbatim>\<open>Set\<close> keeps its members in insertion order and \<^verbatim>\<open>add\<close> of a member
  already present changes nothing: a list without repetitions, extended at the end.
  A \<^verbatim>\<open>Map\<close> keeps its keys in insertion order and \<^verbatim>\<open>set\<close> of an existing key replaces
  the value in place: an association list updated with \<open>AList.update\<close>.
  Strings are lists of code units; \<^verbatim>\<open>startsWith\<close> is \<open>prefix\<close> and \<^verbatim>\<open>endsWith\<close> is
  \<open>suffix\<close>.
\<close>

definition set_add :: "'a \<Rightarrow> 'a list \<Rightarrow> 'a list" where
  "set_add x xs = (if x \<in> set xs then xs else xs @ [x])"

definition map_set :: "'k \<Rightarrow> 'v \<Rightarrow> ('k \<times> 'v) list \<Rightarrow> ('k \<times> 'v) list" where
  "map_set k v m = AList.update k v m"

definition map_get :: "('k \<times> 'v) list \<Rightarrow> 'k \<Rightarrow> 'v option" where
  "map_get m k = map_of m k"

definition map_has :: "('k \<times> 'v) list \<Rightarrow> 'k \<Rightarrow> bool" where
  "map_has m k = (map_of m k \<noteq> None)"

text \<open>
  \<^verbatim>\<open>toLowerCase\<close> on the code units \<open>A\<close> to \<open>Z\<close>; every other unit is left as it is
  (none of the extensions tested below contains a letter that a non-ASCII character
  lowers to).
\<close>

definition lowerChar :: "char \<Rightarrow> char" where
  "lowerChar c =
     (case map_of (zip ''ABCDEFGHIJKLMNOPQRSTUVWXYZ'' ''abcdefghijklmnopqrstuvwxyz'') c of
        None \<Rightarrow> c
      | Some l \<Rightarrow> l)"

definition toLowerCase :: "string \<Rightarrow> string" where
  "toLowerCase s = map lowerChar s"

text \<open>A value of type string-or-undefined is truthy when it is a non-empty string.\<close>

fun truthy :: "string option \<Rightarrow> bool" where
  "truthy None = False"
| "truthy (Some s) = (s \<noteq> [])"

section \<open>The analyzer's state and its collaborators\<close>

text \<open>
  \<^verbatim>\<open>axios.get(url)\<close> resolves with a status and a body, rejects with a response that
  carries a status (\<^verbatim>\<open>error.response\<close>), or rejects without one (only
  \<^verbatim>\<open>error.message\<close>).
\<close>

datatype http_result =
    Resolved int string
  | HttpError int
  | NetworkError string

text \<open>
  What the analyzer reads from a loaded document \<^verbatim>\<open>$\<close>:
  \<^verbatim>\<open>$("title").text().trim()\<close>, the \<^verbatim>\<open>content\<close> attribute of
  \<^verbatim>\<open>meta[name="description"]\<close>, the \<^verbatim>\<open>name\<close>, \<^verbatim>\<open>property\<close> and \<^verbatim>\<open>content\<close>
  attributes of every \<^verbatim>\<open>meta\<close> element, \<^verbatim>\<open>$("h1").first().text().trim()\<close>, the
  \<^verbatim>\<open>href\<close> attribute of every \<^verbatim>\<open>a\<close> element in document order, and the serialised
  content object that \<^verbatim>\<open>extractContent\<close> hands to the AI collaborator.
\<close>

record dom =
  titleText :: string
  metaDescription :: "string option"
  metaElems :: "(string option \<times> string option \<times> string option) list"
  h1Text :: string
  anchorHrefs :: "string option list"
  contentJson :: string

text \<open>
  An element of one of the arrays that the AI collaborator returns, and so a member of
  the keyword set: the prompts ask for strings, but whatever the parsed answer holds is
  taken as it comes. An object or an array is known by its reference, which is how a
  \<^verbatim>\<open>Set\<close> tells two of them apart; with it goes whether converting it to text
  succeeds (it throws for an object whose \<^verbatim>\<open>toString\<close> and \<^verbatim>\<open>valueOf\<close> yield no
  primitive value, which a parsed object with properties of these names can be).
\<close>

datatype js_value =
    JsText string
  | JsNumber int
  | JsBool bool
  | JsNull
  | JsObject nat bool

fun isText :: "js_value \<Rightarrow> bool" where
  "isText (JsText text) = True"
| "isText other = False"

fun printable :: "js_value \<Rightarrow> bool" where
  "printable (JsObject reference converts) = converts"
| "printable other = True"

record page_analysis =
  mainKeywords :: "js_value list"
  longTailKeywords :: "js_value list"
  relatedTopics :: "js_value list"
  contentStructure :: "js_value list"
  seoSuggestions :: "js_value list"

record page_data =
  pd_title :: string
  pd_description :: string
  pd_keywords :: "js_value list"

record ai_suggestions =
  optimizedTitle :: string
  optimizedDescription :: string
  keywordSuggestions :: "string list"

text \<open>
  The object stored per page in \<^verbatim>\<open>pagesMetaTags\<close> is one plain JavaScript object. Its
  properties are the name/content pairs of the page's meta elements and, on the same
  object, the properties \<^verbatim>\<open>aiSuggestions\<close> and \<^verbatim>\<open>contentAnalysis\<close> that the AI steps
  assign; a meta element of one of these names and the AI step write the same property.
  A property value is a string, a suggestions object or an analysis object.

  The own properties of a plain object are listed with the array indices first, in
  ascending order, and then the other names in the order in which they were created;
  assigning to an existing property keeps its place. An array index is a canonical
  decimal numeral below \<open>2^32 - 1\<close>.
\<close>

datatype meta_value =
    MetaText string
  | MetaSuggestions ai_suggestions
  | MetaAnalysis page_analysis

type_synonym meta_obj = "(string \<times> meta_value) list"

definition digitValue :: "char \<Rightarrow> int option" where
  "digitValue c = map_of (zip ''0123456789'' [0, 1, 2, 3, 4, 5, 6, 7, 8, 9]) c"

definition arrayIndex :: "string \<Rightarrow> int option" where
  "arrayIndex k =
     (if k = [] \<or> list_ex (\<lambda>c. digitValue c = None) k \<or> (length k > 1 \<and> hd k = CHR ''0'')
      then None
      else (let n = foldl (\<lambda>acc c. 10 * acc + (case digitValue c of None \<Rightarrow> 0 | Some dv \<Rightarrow> dv))
                      0 k
            in if n \<le> 4294967294 then Some n else None))"

fun prop_insert :: "int \<Rightarrow> string \<Rightarrow> 'v \<Rightarrow> (string \<times> 'v) list \<Rightarrow> (string \<times> 'v) list" where
  "prop_insert i k v [] = [(k, v)]"
| "prop_insert i k v ((k', v') # obj) =
     (case arrayIndex k' of
        None \<Rightarrow> (k, v) # (k', v') # obj
      | Some j \<Rightarrow> if j < i then (k', v') # prop_insert i k v obj else (k, v) # (k', v') # obj)"

definition prop_set :: "string \<Rightarrow> 'v \<Rightarrow> (string \<times> 'v) list \<Rightarrow> (string \<times> 'v) list" where
  "prop_set k v obj =
     (if map_of obj k \<noteq> None then AList.update k v obj
      else (case arrayIndex k of
              None \<Rightarrow> obj @ [(k, v)]
            | Some i \<Rightarrow> prop_insert i k v obj))"

record broken_link =
  bl_url :: string
  bl_status :: int
  bl_error :: "string option"

text \<open>
  What \<^verbatim>\<open>parseString\<close> hands to \<^verbatim>\<open>parseSitemap\<close>: a document whose root is a
  (truthy) \<^verbatim>\<open>sitemapindex\<close>, one whose root is a (truthy) \<^verbatim>\<open>urlset\<close>, or anything
  else. The argument is the \<^verbatim>\<open>sitemap\<close> (or \<^verbatim>\<open>url\<close>) array, \<open>None\<close> when the root has no
  such child; an entry of the array is \<^verbatim>\<open>loc[0]\<close>, or \<open>None\<close> when the entry has no
  \<^verbatim>\<open>loc\<close>, in which case reading \<^verbatim>\<open>loc[0]\<close> throws.
\<close>

datatype sitemap_doc =
    SitemapIndex "string option list option"
  | UrlSet "string option list option"
  | OtherRoot

text \<open>
  Observable steps of a run, in the order in which they happen: \<open>Visit u\<close> is
  \<^verbatim>\<open>visitedUrls.add(u)\<close> in \<^verbatim>\<open>crawl\<close>, \<open>HttpGet u\<close> is the request
  \<^verbatim>\<open>axios.get(u)\<close> issued by \<^verbatim>\<open>fetchPage\<close>, \<open>WriteFile p c\<close> is
  \<^verbatim>\<open>fs.writeFileSync(p, c)\<close>.
\<close>

datatype event =
    Visit string
  | HttpGet string
  | WriteFile string string

text \<open>
  The fields of \<^verbatim>\<open>SEOAnalyzer\<close> that change during a run, and the log of observable
  steps (\<open>trace\<close>, which the program itself does not hold).
\<close>

record analyzer =
  visitedUrls :: "string list"
  staticResources :: "string list"
  brokenLinks :: "broken_link list"
  internalLinks :: "(string \<times> string list) list"
  externalLinks :: "(string \<times> string list) list"
  pagesTitles :: "(string \<times> string) list"
  pagesDescriptions :: "(string \<times> string) list"
  pagesH1 :: "(string \<times> string) list"
  sitemapUrls :: "string list"
  urlsNotInSitemap :: "string list"
  urlsInSitemapButNotCrawled :: "string list"
  statusCodes :: "(string \<times> int) list"
  pagesTitlesWarnings :: "(string \<times> nat) list"
  pagesDescriptionsWarnings :: "(string \<times> nat) list"
  pagesMetaTags :: "(string \<times> meta_obj) list"
  keywordSet :: "js_value list"
  trace :: "event list"

text \<open>
  The report object. An entry of \<^verbatim>\<open>issues\<close> is one of eight message templates filled
  with a URL, a length or a count, kept here as a value instead of the rendered text.
  A status in the report is a number or the string \<^verbatim>\<open>"unknown"\<close>.
\<close>

datatype issue =
    MissingTitle string
  | InvalidTitleLength nat string
  | MissingDescription string
  | InvalidDescriptionLength nat string
  | MissingH1 string
  | BrokenLinksFound nat
  | PagesNotInSitemap nat
  | SitemapPagesNotCrawled nat

datatype report_status = StatusCode int | StatusUnknown

record page_meta =
  pm_url :: string
  pm_status :: report_status
  pm_title :: string
  pm_titleLength :: nat
  pm_description :: string
  pm_descriptionLength :: nat
  pm_h1 :: string
  pm_internalLinksCount :: nat
  pm_externalLinksCount :: nat
  pm_metaTags :: meta_obj

record static_entry =
  se_url :: string
  se_type :: string
  se_status :: report_status

record crawl_stats =
  totalUrlsCrawled :: nat
  totalStaticResources :: nat
  cs_brokenLinks :: nat
  totalInternalLinks :: nat
  totalExternalLinks :: nat
  urlsWithoutTitle :: "string list"
  urlsWithoutDescription :: "string list"
  urlsWithoutH1 :: "string list"
  urlsWithInvalidTitleLength :: "(string \<times> nat) list"
  urlsWithInvalidDescriptionLength :: "(string \<times> nat) list"

record sitemap_stats =
  totalUrlsInSitemap :: nat
  ss_urlsNotInSitemap :: "string list"
  ss_urlsInSitemapButNotCrawled :: "string list"

record report =
  r_baseUrl :: string
  dateGenerated :: string
  issues :: "issue list"
  crawlStats :: crawl_stats
  sitemapStats :: sitemap_stats
  r_brokenLinks :: "broken_link list"
  pageMeta :: "page_meta list"
  r_staticResources :: "static_entry list"

text \<open>
  What a run is given and does not change: \<^verbatim>\<open>this.startUrl\<close> and
  \<^verbatim>\<open>this.baseUrl\<close> (set once by the constructor), and the collaborators: the HTTP client, the HTML loader, the URL
  resolver \<^verbatim>\<open>new URL(link, base).href\<close> (\<open>None\<close> when it throws), and the two methods of
  \<^verbatim>\<open>this.aiOptimizer\<close> that the analyzer calls (\<open>None\<close> when the call throws or
  returns \<^verbatim>\<open>null\<close>), the XML parser of \<^verbatim>\<open>xml2js\<close> (\<open>None\<close> when it reports an
  error), \<^verbatim>\<open>JSON.stringify(report, null, 2)\<close>, and the text that the HTML template of
  \<^verbatim>\<open>generateHtmlReport\<close> expands to for a report and the keyword set, when its
  evaluation does not throw.
\<close>

record env =
  startUrl :: string
  baseUrl :: string
  axios_get :: "string \<Rightarrow> http_result"
  cheerio_load :: "string \<Rightarrow> dom"
  new_URL :: "string \<Rightarrow> string \<Rightarrow> string option"
  analyzePageContent :: "string \<Rightarrow> string \<Rightarrow> page_analysis option"
  optimizeMetaTags :: "page_data \<Rightarrow> ai_suggestions option"
  parseString :: "string \<Rightarrow> sitemap_doc option"
  JSON_stringify :: "report \<Rightarrow> string"
  htmlTemplate :: "report \<Rightarrow> js_value list \<Rightarrow> string"

text \<open>The state the constructor builds; \<open>kws\<close> is \<^verbatim>\<open>config.seo.keywords\<close>.\<close>

definition new_analyzer :: "string list \<Rightarrow> analyzer" where
  "new_analyzer kws =
     \<lparr>visitedUrls = [], staticResources = [], brokenLinks = [],
      internalLinks = [], externalLinks = [],
      pagesTitles = [], pagesDescriptions = [], pagesH1 = [],
      sitemapUrls = [], urlsNotInSitemap = [], urlsInSitemapButNotCrawled = [],
      statusCodes = [], pagesTitlesWarnings = [], pagesDescriptionsWarnings = [],
      pagesMetaTags = [],
      keywordSet = foldl (\<lambda>acc k. set_add k acc) [] (map JsText kws),
      trace = []\<rparr>"

section \<open>URL classifier\<close>

definition isInternalUrl :: "env \<Rightarrow> string \<Rightarrow> bool" where
  "isInternalUrl w link = (prefix ''/'' link \<or> prefix (baseUrl w) link)"

definition normalizeUrl :: "env \<Rightarrow> string \<Rightarrow> string \<Rightarrow> string option" where
  "normalizeUrl w link currentUrl =
     (if prefix ''/'' link then new_URL w link (baseUrl w)
      else if \<not> prefix ''http'' link then new_URL w link currentUrl
      else Some link)"

definition ignoreExtensions :: "string list" where
  "ignoreExtensions =
     [''.jpg'', ''.jpeg'', ''.png'', ''.gif'', ''.pdf'', ''.doc'', ''.zip'', ''.css'',
      ''.js'', ''.webp'', ''.svg'', ''.ico'', ''.woff'', ''.woff2'', ''.ttf'', ''.eot'']"

definition isStaticResource :: "string \<Rightarrow> bool" where
  "isStaticResource url = list_ex (\<lambda>ext. suffix ext (toLowerCase url)) ignoreExtensions"

definition shouldCrawl :: "string \<Rightarrow> analyzer \<Rightarrow> bool \<times> analyzer" where
  "shouldCrawl url st =
     (if isStaticResource url
      then (False, st\<lparr>staticResources := set_add url (staticResources st)\<rparr>)
      else (True, st))"

section \<open>Fetching and extracting\<close>

definition fetchPage :: "env \<Rightarrow> string \<Rightarrow> analyzer \<Rightarrow> (string \<times> int) \<times> analyzer" where
  "fetchPage w url st =
     (let st0 = st\<lparr>trace := trace st @ [HttpGet url]\<rparr> in
      case axios_get w url of
        Resolved status body \<Rightarrow>
          ((body, status), st0\<lparr>statusCodes := map_set url status (statusCodes st0)\<rparr>)
      | HttpError status \<Rightarrow>
          (([], status),
           st0\<lparr>statusCodes := map_set url status (statusCodes st0),
               brokenLinks := brokenLinks st0 @
                 [\<lparr>bl_url = url, bl_status = status, bl_error = None\<rparr>]\<rparr>)
      | NetworkError msg \<Rightarrow>
          (([], 0),
           st0\<lparr>statusCodes := map_set url 0 (statusCodes st0),
               brokenLinks := brokenLinks st0 @
                 [\<lparr>bl_url = url, bl_status = 0, bl_error = Some msg\<rparr>]\<rparr>))"

definition analyzePage :: "env \<Rightarrow> string \<Rightarrow> dom \<Rightarrow> analyzer \<Rightarrow> analyzer" where
  "analyzePage w url d st =
     (case analyzePageContent w (contentJson d) url of
        None \<Rightarrow> st
      | Some pageAnalysis \<Rightarrow>
          (let metaTags = (case map_get (pagesMetaTags st) url of
                             None \<Rightarrow> [] | Some m \<Rightarrow> m)
           in st\<lparr>pagesMetaTags :=
                   map_set url (prop_set ''contentAnalysis'' (MetaAnalysis pageAnalysis) metaTags)
                     (pagesMetaTags st),
                 keywordSet :=
                   foldl (\<lambda>acc k. set_add k acc) (keywordSet st)
                     (mainKeywords pageAnalysis @ longTailKeywords pageAnalysis)\<rparr>))"

text \<open>
  One \<^verbatim>\<open>meta\<close> element of the loop that fills \<^verbatim>\<open>metaTags\<close> with
  \<^verbatim>\<open>metaTags[name] = content\<close>. Assigning a string to \<^verbatim>\<open>__proto__\<close> creates no
  property.
\<close>

fun metaStep ::
  "meta_obj \<Rightarrow> string option \<times> string option \<times> string option \<Rightarrow> meta_obj" where
  "metaStep acc (nameAttr, propertyAttr, contentAttr) =
     (case (if truthy nameAttr then nameAttr else propertyAttr) of
        None \<Rightarrow> acc
      | Some name \<Rightarrow>
          (case contentAttr of
             None \<Rightarrow> acc
           | Some content \<Rightarrow>
               if name \<noteq> [] \<and> content \<noteq> [] then
                 (if name = ''__proto__'' then acc else prop_set name (MetaText content) acc)
               else acc))"

text \<open>
  \<^verbatim>\<open>extractMetadata\<close> is five statements in a row, each reading the document and
  updating the analyzer: the title and its length warning (the bounds 30 and 60 are
  literals of the source), the description and its length warning (120 and 160), the
  meta tags, the first heading, and the AI suggestions. The last one runs inside
  \<^verbatim>\<open>try\<close>/\<^verbatim>\<open>catch\<close>: a collaborator that throws, or a page object that is missing
  from \<^verbatim>\<open>pagesMetaTags\<close>, leaves the state as it was.
\<close>

definition storeTitle :: "dom \<Rightarrow> string \<Rightarrow> analyzer \<Rightarrow> analyzer" where
  "storeTitle d url st =
     (let title = titleText d in
      if title \<noteq> [] then
        st\<lparr>pagesTitles := map_set url title (pagesTitles st),
           pagesTitlesWarnings :=
             (if length title < 30 \<or> length title > 60
              then map_set url (length title) (pagesTitlesWarnings st)
              else pagesTitlesWarnings st)\<rparr>
      else st)"

definition storeDescription :: "dom \<Rightarrow> string \<Rightarrow> analyzer \<Rightarrow> analyzer" where
  "storeDescription d url st =
     (case metaDescription d of
        None \<Rightarrow> st
      | Some description \<Rightarrow>
          if description \<noteq> [] then
            st\<lparr>pagesDescriptions := map_set url description (pagesDescriptions st),
               pagesDescriptionsWarnings :=
                 (if length description < 120 \<or> length description > 160
                  then map_set url (length description) (pagesDescriptionsWarnings st)
                  else pagesDescriptionsWarnings st)\<rparr>
          else st)"

definition storeMetaTags :: "dom \<Rightarrow> string \<Rightarrow> analyzer \<Rightarrow> analyzer" where
  "storeMetaTags d url st =
     st\<lparr>pagesMetaTags :=
          map_set url (foldl metaStep [] (metaElems d)) (pagesMetaTags st)\<rparr>"

definition storeH1 :: "dom \<Rightarrow> string \<Rightarrow> analyzer \<Rightarrow> analyzer" where
  "storeH1 d url st =
     (let h1 = h1Text d in
      if h1 \<noteq> [] then st\<lparr>pagesH1 := map_set url h1 (pagesH1 st)\<rparr> else st)"

definition storeAiSuggestions :: "env \<Rightarrow> dom \<Rightarrow> string \<Rightarrow> analyzer \<Rightarrow> analyzer" where
  "storeAiSuggestions w d url st =
     (if titleText d \<noteq> [] \<or> truthy (metaDescription d) then
        (case optimizeMetaTags w
                \<lparr>pd_title = titleText d,
                 pd_description =
                   (case metaDescription d of None \<Rightarrow> [] | Some description \<Rightarrow> description),
                 pd_keywords = keywordSet st\<rparr> of
           None \<Rightarrow> st
         | Some optimizedData \<Rightarrow>
             (case map_get (pagesMetaTags st) url of
                None \<Rightarrow> st
              | Some metaTags \<Rightarrow>
                  st\<lparr>pagesMetaTags :=
                       map_set url
                         (prop_set ''aiSuggestions'' (MetaSuggestions optimizedData) metaTags)
                         (pagesMetaTags st)\<rparr>))
      else st)"

definition extractMetadata :: "env \<Rightarrow> dom \<Rightarrow> string \<Rightarrow> analyzer \<Rightarrow> analyzer" where
  "extractMetadata w d url st =
     storeAiSuggestions w d url
       (storeH1 d url (storeMetaTags d url (storeDescription d url (storeTitle d url st))))"

text \<open>
  One \<^verbatim>\<open>a\<close> element of the loop in \<^verbatim>\<open>extractLinks\<close>: the accumulator is the set
  \<^verbatim>\<open>links\<close> and the two arrays \<^verbatim>\<open>currentInternalLinks\<close> and
  \<^verbatim>\<open>currentExternalLinks\<close>. A missing or empty \<^verbatim>\<open>href\<close>, an anchor, and a
  \<^verbatim>\<open>javascript:\<close>, \<^verbatim>\<open>mailto:\<close> or \<^verbatim>\<open>tel:\<close> link are skipped; so is an \<^verbatim>\<open>href\<close> on which
  the URL resolver throws. The classification tests the raw \<^verbatim>\<open>href\<close>.
\<close>

fun linkStep ::
  "env \<Rightarrow> string \<Rightarrow> string list \<times> string list \<times> string list \<Rightarrow> string option \<Rightarrow>
   string list \<times> string list \<times> string list" where
  "linkStep w currentUrl (links, ints, exts) None = (links, ints, exts)"
| "linkStep w currentUrl (links, ints, exts) (Some href) =
     (if href = [] then (links, ints, exts)
      else if prefix ''#'' href \<or> prefix ''javascript:'' href \<or>
              prefix ''mailto:'' href \<or> prefix ''tel:'' href
      then (links, ints, exts)
      else (case normalizeUrl w href currentUrl of
              None \<Rightarrow> (links, ints, exts)
            | Some normalizedUrl \<Rightarrow>
                if isInternalUrl w href
                then (set_add normalizedUrl links, ints @ [normalizedUrl], exts)
                else (set_add normalizedUrl links, ints, exts @ [normalizedUrl])))"

definition extractLinks ::
  "env \<Rightarrow> dom \<Rightarrow> string \<Rightarrow> analyzer \<Rightarrow> string list \<times> analyzer" where
  "extractLinks w d currentUrl st =
     (case foldl (linkStep w currentUrl) ([], [], []) (anchorHrefs d) of
        (links, currentInternalLinks, currentExternalLinks) \<Rightarrow>
          (links,
           st\<lparr>internalLinks := map_set currentUrl currentInternalLinks (internalLinks st),
              externalLinks := map_set currentUrl currentExternalLinks (externalLinks st)\<rparr>))"

section \<open>Crawl traversal\<close>

text \<open>
  \<^verbatim>\<open>crawl(url, depth, maxDepth)\<close>; \<open>crawl_links\<close> is its closing loop
  \<^verbatim>\<open>for (const link of links) if (this.isInternalUrl(link)) await this.crawl(link, depth + 1, maxDepth)\<close>.
  The guard is evaluated left to right, so \<^verbatim>\<open>shouldCrawl\<close> (which records a static
  resource) runs only when the first two tests are false.
\<close>

function crawl :: "env \<Rightarrow> string \<Rightarrow> int \<Rightarrow> int \<Rightarrow> analyzer \<Rightarrow> analyzer"
  and crawl_links :: "env \<Rightarrow> string list \<Rightarrow> int \<Rightarrow> int \<Rightarrow> analyzer \<Rightarrow> analyzer" where
  "crawl w url depth maxDepth st =
     (if depth > maxDepth \<or> url \<in> set (visitedUrls st) then st
      else (case shouldCrawl url st of
              (False, st1) \<Rightarrow> st1
            | (True, st1) \<Rightarrow>
                (let st2 = st1\<lparr>visitedUrls := set_add url (visitedUrls st1),
                               trace := trace st1 @ [Visit url]\<rparr>
                 in case fetchPage w url st2 of
                      ((html, status), st3) \<Rightarrow>
                        if status \<noteq> 200 \<or> html = [] then st3
                        else (let d = cheerio_load w html;
                                  st4 = analyzePage w url d st3;
                                  st5 = extractMetadata w d url st4
                              in case extractLinks w d url st5 of
                                   (links, st6) \<Rightarrow> crawl_links w links depth maxDepth st6))))"
| "crawl_links w [] depth maxDepth st = st"
| "crawl_links w (link # links) depth maxDepth st =
     crawl_links w links depth maxDepth
       (if isInternalUrl w link then crawl w link (depth + 1) maxDepth st else st)"
  by pat_completeness auto
termination
  by (relation "measures
        [\<lambda>x. case x of
               Inl (w, url, depth, maxDepth, st) \<Rightarrow> 2 * nat (maxDepth + 1 - depth)
             | Inr (w, links, depth, maxDepth, st) \<Rightarrow> 2 * nat (maxDepth + 1 - depth) - 1,
         \<lambda>x. case x of
               Inl (w, url, depth, maxDepth, st) \<Rightarrow> 0
             | Inr (w, links, depth, maxDepth, st) \<Rightarrow> Suc (length links)]")
     auto

section \<open>Notions used to state the crawl properties\<close>

text \<open>
  The set \<^verbatim>\<open>links\<close> that \<^verbatim>\<open>extractLinks\<close> returns, the document that \<^verbatim>\<open>crawl\<close>
  goes on to process after a fetch (none when the status is not 200 or the body is
  empty), the state once \<^verbatim>\<open>crawl\<close> has marked and fetched a URL, and the state once it
  has processed the page.
\<close>

definition linkSet :: "env \<Rightarrow> dom \<Rightarrow> string \<Rightarrow> string list" where
  "linkSet w d currentUrl = fst (foldl (linkStep w currentUrl) ([], [], []) (anchorHrefs d))"

definition pageOf :: "env \<Rightarrow> string \<Rightarrow> dom option" where
  "pageOf w url =
     (case axios_get w url of
        Resolved status body \<Rightarrow>
          if status \<noteq> 200 \<or> body = [] then None else Some (cheerio_load w body)
      | HttpError status \<Rightarrow> None
      | NetworkError msg \<Rightarrow> None)"

definition afterFetch :: "env \<Rightarrow> string \<Rightarrow> analyzer \<Rightarrow> analyzer" where
  "afterFetch w url st =
     snd (fetchPage w url
            (st\<lparr>visitedUrls := set_add url (visitedUrls st), trace := trace st @ [Visit url]\<rparr>))"

definition afterPage :: "env \<Rightarrow> string \<Rightarrow> dom \<Rightarrow> analyzer \<Rightarrow> analyzer" where
  "afterPage w url d st =
     snd (extractLinks w d url (extractMetadata w d url (analyzePage w url d st)))"

text \<open>The URLs requested by \<^verbatim>\<open>fetchPage\<close>, in order, one per request.\<close>

fun fetchedUrls :: "event list \<Rightarrow> string list" where
  "fetchedUrls [] = []"
| "fetchedUrls (HttpGet u # es) = u # fetchedUrls es"
| "fetchedUrls (Visit u # es) = fetchedUrls es"
| "fetchedUrls (WriteFile p c # es) = fetchedUrls es"

text \<open>Every request for a URL comes after the step that put the URL in the visited set.\<close>

definition fetch_after_visit :: "event list \<Rightarrow> bool" where
  "fetch_after_visit tr =
     (\<forall>i < length tr. case tr ! i of
        HttpGet u \<Rightarrow> Visit u \<in> set (take i tr)
      | Visit u \<Rightarrow> True
      | WriteFile p c \<Rightarrow> True)"

definition fetch_inv :: "analyzer \<Rightarrow> bool" where
  "fetch_inv st =
     (distinct (fetchedUrls (trace st)) \<and>
      set (fetchedUrls (trace st)) \<subseteq> set (visitedUrls st) \<and>
      fetch_after_visit (trace st))"

text \<open>
  The link graph that the traversal follows: the successors of a URL are the internal
  links of its page, when its fetch yields a page. \<open>reachableWithin w n u v\<close>: \<open>v\<close> is at
  link distance at most \<open>n\<close> from \<open>u\<close>.
\<close>

definition outLinks :: "env \<Rightarrow> string \<Rightarrow> string list" where
  "outLinks w url =
     (case pageOf w url of
        None \<Rightarrow> []
      | Some d \<Rightarrow> filter (isInternalUrl w) (linkSet w d url))"

fun reachableWithin :: "env \<Rightarrow> nat \<Rightarrow> string \<Rightarrow> string \<Rightarrow> bool" where
  "reachableWithin w 0 u v = (v = u)"
| "reachableWithin w (Suc n) u v = (v = u \<or> (\<exists>x \<in> set (outLinks w u). reachableWithin w n x v))"


text \<open>The entry that \<^verbatim>\<open>fetchPage\<close> pushes on \<^verbatim>\<open>brokenLinks\<close> for a URL, if any.\<close>

definition brokenEntry :: "env \<Rightarrow> string \<Rightarrow> broken_link list" where
  "brokenEntry w url =
     (case axios_get w url of
        Resolved status body \<Rightarrow> []
      | HttpError status \<Rightarrow> [\<lparr>bl_url = url, bl_status = status, bl_error = None\<rparr>]
      | NetworkError msg \<Rightarrow> [\<lparr>bl_url = url, bl_status = 0, bl_error = Some msg\<rparr>])"

section \<open>Sitemap reconciler\<close>

definition fetchSitemap :: "env \<Rightarrow> string option" where
  "fetchSitemap w =
     (case axios_get w (baseUrl w @ ''/sitemap.xml'') of
        Resolved status body \<Rightarrow> Some body
      | HttpError status \<Rightarrow> None
      | NetworkError msg \<Rightarrow> None)"

text \<open>
  A promise settles as resolved or rejected; the set \<^verbatim>\<open>sitemapUrls\<close> keeps what was
  added before a rejection.
\<close>

datatype outcome = Resolves | Rejects

text \<open>
  \<^verbatim>\<open>processSitemap(urlset)\<close>: the loop over \<^verbatim>\<open>urlset.url\<close>. An entry without \<^verbatim>\<open>loc\<close>
  throws, which \<^verbatim>\<open>parseSitemap\<close> turns into a rejection.
\<close>

fun processSitemap_loop :: "string option list \<Rightarrow> string list \<Rightarrow> outcome \<times> string list" where
  "processSitemap_loop [] urls = (Resolves, urls)"
| "processSitemap_loop (None # items) urls = (Rejects, urls)"
| "processSitemap_loop (Some url # items) urls = processSitemap_loop items (set_add url urls)"

definition processSitemap :: "string option list option \<Rightarrow> string list \<Rightarrow> outcome \<times> string list" where
  "processSitemap urlset_url urls =
     (case urlset_url of
        None \<Rightarrow> (Resolves, urls)
      | Some items \<Rightarrow> processSitemap_loop items urls)"

text \<open>
  \<^verbatim>\<open>parseSitemap\<close> and \<^verbatim>\<open>processSitemapIndex\<close> call each other, and nothing bounds the
  nesting, so they are one partial function on two kinds of job: \<open>ParseJob xml\<close> is
  \<^verbatim>\<open>parseSitemap(xml)\<close>, \<open>IndexJob entries\<close> is the loop of \<^verbatim>\<open>processSitemapIndex\<close> over
  the entries still to do. The result is \<open>None\<close> when the call never settles. The state
  threaded through is \<^verbatim>\<open>this.sitemapUrls\<close>, the only field these functions write.
  In the loop, everything is inside \<^verbatim>\<open>try\<close>/\<^verbatim>\<open>catch\<close>: an entry without \<^verbatim>\<open>loc\<close>, a
  failed request and a rejected \<^verbatim>\<open>parseSitemap\<close> are logged and the loop goes on.
\<close>

datatype sm_job = ParseJob string | IndexJob "string option list"

partial_function (option) sitemapRun ::
  "env \<Rightarrow> sm_job \<Rightarrow> string list \<Rightarrow> (outcome \<times> string list) option" where
  "sitemapRun w job urls =
     (case job of
        ParseJob sitemapXml \<Rightarrow>
          (case parseString w sitemapXml of
             None \<Rightarrow> Some (Rejects, urls)
           | Some doc \<Rightarrow>
               (case doc of
                  SitemapIndex sitemaps \<Rightarrow>
                    (case sitemaps of
                       None \<Rightarrow> Some (Resolves, urls)
                     | Some entries \<Rightarrow> sitemapRun w (IndexJob entries) urls)
                | UrlSet urlset_url \<Rightarrow> Some (processSitemap urlset_url urls)
                | OtherRoot \<Rightarrow> Some (Rejects, urls)))
      | IndexJob entries \<Rightarrow>
          (case entries of
             [] \<Rightarrow> Some (Resolves, urls)
           | entry # rest \<Rightarrow>
               (case entry of
                  None \<Rightarrow> sitemapRun w (IndexJob rest) urls
                | Some sitemapUrl \<Rightarrow>
                    (case axios_get w sitemapUrl of
                       Resolved status body \<Rightarrow>
                         Option.bind (sitemapRun w (ParseJob body) urls)
                           (\<lambda>r. sitemapRun w (IndexJob rest) (snd r))
                     | HttpError status \<Rightarrow> sitemapRun w (IndexJob rest) urls
                     | NetworkError msg \<Rightarrow> sitemapRun w (IndexJob rest) urls))))"

definition parseSitemap :: "env \<Rightarrow> string \<Rightarrow> string list \<Rightarrow> (outcome \<times> string list) option" where
  "parseSitemap w sitemapXml urls = sitemapRun w (ParseJob sitemapXml) urls"

definition processSitemapIndex ::
  "env \<Rightarrow> string option list option \<Rightarrow> string list \<Rightarrow> (outcome \<times> string list) option" where
  "processSitemapIndex w sitemaps urls =
     (case sitemaps of
        None \<Rightarrow> Some (Resolves, urls)
      | Some entries \<Rightarrow> sitemapRun w (IndexJob entries) urls)"

text \<open>
  \<open>childDoc w xml body\<close>: \<open>xml\<close> is a sitemap index and \<open>body\<close> is what the request for one
  of its entries returns. \<open>listedUrl w xml u\<close>: the page URL \<open>u\<close> is added when \<open>xml\<close> is
  processed (an entry of a \<^verbatim>\<open>urlset\<close> counts when no entry before it lacks \<^verbatim>\<open>loc\<close>).
\<close>

definition childDoc :: "env \<Rightarrow> string \<Rightarrow> string \<Rightarrow> bool" where
  "childDoc w xml body =
     (\<exists>entries sitemapUrl status.
        parseString w xml = Some (SitemapIndex (Some entries)) \<and>
        Some sitemapUrl \<in> set entries \<and>
        axios_get w sitemapUrl = Resolved status body)"

inductive listedUrl :: "env \<Rightarrow> string \<Rightarrow> string \<Rightarrow> bool" where
  leaf: "parseString w xml = Some (UrlSet (Some items)) \<Longrightarrow>
         Some u \<in> set (takeWhile (\<lambda>i. i \<noteq> None) items) \<Longrightarrow> listedUrl w xml u"
| index: "childDoc w xml body \<Longrightarrow> listedUrl w body u \<Longrightarrow> listedUrl w xml u"

text \<open>
  \<open>nestingEnds w xml\<close>: every chain of child documents that starts at \<open>xml\<close> ends; this
  is the accessible part of the child relation, and it looks only at the documents
  reached from \<open>xml\<close>.
\<close>

definition nestingEnds :: "env \<Rightarrow> string \<Rightarrow> bool" where
  "nestingEnds w xml = Wellfounded.accp (childDoc w)\<inverse>\<inverse> xml"

text \<open>
  \<open>settles w job urls added\<close>: the job returns, with a set that has no repetition and
  holds what \<open>urls\<close> held and the URLs in \<open>added\<close>.
\<close>

definition settles :: "env \<Rightarrow> sm_job \<Rightarrow> string list \<Rightarrow> string set \<Rightarrow> bool" where
  "settles w job urls added =
     (\<exists>out urls'. sitemapRun w job urls = Some (out, urls') \<and> distinct urls' \<and>
        set urls' = set urls \<union> added)"

definition compareCrawlWithSitemap :: "analyzer \<Rightarrow> analyzer" where
  "compareCrawlWithSitemap st =
     st\<lparr>urlsNotInSitemap :=
          foldl (\<lambda>acc crawledUrl.
                   if crawledUrl \<notin> set (sitemapUrls st) then set_add crawledUrl acc else acc)
            (urlsNotInSitemap st) (visitedUrls st),
        urlsInSitemapButNotCrawled :=
          foldl (\<lambda>acc sitemapUrl.
                   if sitemapUrl \<notin> set (visitedUrls st) then set_add sitemapUrl acc else acc)
            (urlsInSitemapButNotCrawled st) (sitemapUrls st)\<rparr>"

section \<open>Report aggregator\<close>

text \<open>\<^verbatim>\<open>this.statusCodes.get(url) || "unknown"\<close>: a missing status and the status 0 are both falsy.\<close>

definition reportStatus :: "analyzer \<Rightarrow> string \<Rightarrow> report_status" where
  "reportStatus st url =
     (case map_get (statusCodes st) url of
        None \<Rightarrow> StatusUnknown
      | Some code \<Rightarrow> if code = 0 then StatusUnknown else StatusCode code)"

definition pageRecord :: "analyzer \<Rightarrow> string \<Rightarrow> page_meta" where
  "pageRecord st url =
     \<lparr>pm_url = url,
      pm_status = reportStatus st url,
      pm_title = (case map_get (pagesTitles st) url of None \<Rightarrow> [] | Some t \<Rightarrow> t),
      pm_titleLength = (case map_get (pagesTitles st) url of None \<Rightarrow> 0 | Some t \<Rightarrow> length t),
      pm_description = (case map_get (pagesDescriptions st) url of None \<Rightarrow> [] | Some t \<Rightarrow> t),
      pm_descriptionLength =
        (case map_get (pagesDescriptions st) url of None \<Rightarrow> 0 | Some t \<Rightarrow> length t),
      pm_h1 = (case map_get (pagesH1 st) url of None \<Rightarrow> [] | Some t \<Rightarrow> t),
      pm_internalLinksCount =
        (case map_get (internalLinks st) url of None \<Rightarrow> 0 | Some ls \<Rightarrow> length ls),
      pm_externalLinksCount =
        (case map_get (externalLinks st) url of None \<Rightarrow> 0 | Some ls \<Rightarrow> length ls),
      pm_metaTags = (case map_get (pagesMetaTags st) url of None \<Rightarrow> [] | Some m \<Rightarrow> m)\<rparr>"

text \<open>\<^verbatim>\<open>url.split(".").pop()\<close>: what follows the last dot, the whole string when there is none.\<close>

definition afterLastDot :: "string \<Rightarrow> string" where
  "afterLastDot url = rev (takeWhile (\<lambda>c. c \<noteq> CHR ''.'') (rev url))"

definition staticRecord :: "analyzer \<Rightarrow> string \<Rightarrow> static_entry" where
  "staticRecord st url =
     \<lparr>se_url = url, se_type = toLowerCase (afterLastDot url), se_status = reportStatus st url\<rparr>"

definition buildReport :: "env \<Rightarrow> string \<Rightarrow> analyzer \<Rightarrow> report" where
  "buildReport w now st =
     \<lparr>r_baseUrl = baseUrl w,
      dateGenerated = now,
      issues = [],
      crawlStats =
        \<lparr>totalUrlsCrawled = length (visitedUrls st),
         totalStaticResources = length (staticResources st),
         cs_brokenLinks = length (brokenLinks st),
         totalInternalLinks = length (concat (map snd (internalLinks st))),
         totalExternalLinks = length (concat (map snd (externalLinks st))),
         urlsWithoutTitle = filter (\<lambda>url. \<not> map_has (pagesTitles st) url) (visitedUrls st),
         urlsWithoutDescription =
           filter (\<lambda>url. \<not> map_has (pagesDescriptions st) url) (visitedUrls st),
         urlsWithoutH1 = filter (\<lambda>url. \<not> map_has (pagesH1 st) url) (visitedUrls st),
         urlsWithInvalidTitleLength = pagesTitlesWarnings st,
         urlsWithInvalidDescriptionLength = pagesDescriptionsWarnings st\<rparr>,
      sitemapStats =
        \<lparr>totalUrlsInSitemap = length (sitemapUrls st),
         ss_urlsNotInSitemap = urlsNotInSitemap st,
         ss_urlsInSitemapButNotCrawled = urlsInSitemapButNotCrawled st\<rparr>,
      r_brokenLinks = brokenLinks st,
      pageMeta = map (pageRecord st) (visitedUrls st),
      r_staticResources = map (staticRecord st) (staticResources st)\<rparr>"

text \<open>
  \<^verbatim>\<open>generateHtmlReport(report)\<close> first evaluates the template and then writes the
  file. Two places of the template can throw a \<^verbatim>\<open>TypeError\<close>, both in the part that is
  expanded once per page:
  \<^item> \<^verbatim>\<open>this.analyzeKeywords(page.title)\<close> and \<^verbatim>\<open>this.analyzeKeywords(page.description)\<close>
    return at once on an empty text and otherwise call \<^verbatim>\<open>keyword.toLowerCase()\<close> on every
    member of the keyword set, which throws on a member that is not a string;
  \<^item> when \<^verbatim>\<open>page.metaTags?.contentAnalysis\<close> is truthy, the template calls \<^verbatim>\<open>.map\<close> on
    its \<^verbatim>\<open>mainKeywords\<close>, \<^verbatim>\<open>longTailKeywords\<close>, \<^verbatim>\<open>relatedTopics\<close>,
    \<^verbatim>\<open>contentStructure\<close> and \<^verbatim>\<open>seoSuggestions\<close>: on an analysis object these are
    arrays, whose elements are converted to text, which throws for an element that
    cannot be converted; on a non-empty string (the content of a meta element named
    \<^verbatim>\<open>contentAnalysis\<close>) or on a suggestions object they are undefined and the call
    throws.
  The rest of the template reads numbers, strings and array lengths and converts values
  to text. The result is \<open>None\<close> when the template throws; no file is written then. The
  writes themselves are taken to succeed.
\<close>

definition badContentAnalysis :: "meta_obj \<Rightarrow> bool" where
  "badContentAnalysis metaTags =
     (case map_of metaTags ''contentAnalysis'' of
        None \<Rightarrow> False
      | Some v \<Rightarrow>
          (case v of
             MetaText text \<Rightarrow> text \<noteq> []
           | MetaSuggestions suggestions \<Rightarrow> True
           | MetaAnalysis pageAnalysis \<Rightarrow>
               list_ex (\<lambda>element. \<not> printable element)
                 (mainKeywords pageAnalysis @ longTailKeywords pageAnalysis @
                  relatedTopics pageAnalysis @ contentStructure pageAnalysis @
                  seoSuggestions pageAnalysis)))"

definition pageThrows :: "js_value list \<Rightarrow> page_meta \<Rightarrow> bool" where
  "pageThrows kws page =
     (((pm_title page \<noteq> [] \<or> pm_description page \<noteq> []) \<and> list_ex (\<lambda>k. \<not> isText k) kws) \<or>
      badContentAnalysis (pm_metaTags page))"

definition templateThrows :: "report \<Rightarrow> js_value list \<Rightarrow> bool" where
  "templateThrows rep kws = list_ex (pageThrows kws) (pageMeta rep)"

definition generateHtmlReport :: "env \<Rightarrow> report \<Rightarrow> analyzer \<Rightarrow> analyzer option" where
  "generateHtmlReport w rep st =
     (if templateThrows rep (keywordSet st) then None
      else Some (st\<lparr>trace := trace st @
                   [WriteFile ''seo-report.html'' (htmlTemplate w rep (keywordSet st))]\<rparr>))"

text \<open>
  \<^verbatim>\<open>generateReport()\<close>: builds the object (\<open>now\<close> is what \<^verbatim>\<open>new Date().toISOString()\<close>
  returns at that moment), writes it to \<^verbatim>\<open>seo-report.json\<close>, calls
  \<^verbatim>\<open>generateHtmlReport\<close>, and returns the object. When \<^verbatim>\<open>generateHtmlReport\<close> throws,
  so does \<^verbatim>\<open>generateReport\<close>: the result is \<open>None\<close>, after the first file was written.
\<close>

definition generateReport :: "env \<Rightarrow> string \<Rightarrow> analyzer \<Rightarrow> report option \<times> analyzer" where
  "generateReport w now st =
     (let rep = buildReport w now st;
          st1 = st\<lparr>trace := trace st @ [WriteFile ''seo-report.json'' (JSON_stringify w rep)]\<rparr>
      in case generateHtmlReport w rep st1 of
           None \<Rightarrow> (None, st1)
         | Some st2 \<Rightarrow> (Some rep, st2))"

section \<open>The whole run\<close>

text \<open>The three loops and three tests of \<^verbatim>\<open>analyze\<close> that fill \<^verbatim>\<open>issues\<close>.\<close>

definition titleIssues :: "analyzer \<Rightarrow> issue list" where
  "titleIssues st =
     concat (map (\<lambda>(url, title).
                    if title = [] then [MissingTitle url]
                    else if length title < 30 \<or> length title > 60
                    then [InvalidTitleLength (length title) url]
                    else [])
               (pagesTitles st))"

definition descriptionIssues :: "analyzer \<Rightarrow> issue list" where
  "descriptionIssues st =
     concat (map (\<lambda>(url, description).
                    if description = [] then [MissingDescription url]
                    else if length description < 120 \<or> length description > 160
                    then [InvalidDescriptionLength (length description) url]
                    else [])
               (pagesDescriptions st))"

definition h1Issues :: "analyzer \<Rightarrow> issue list" where
  "h1Issues st =
     concat (map (\<lambda>(url, h1). if h1 = [] then [MissingH1 url] else []) (pagesH1 st))"

definition collectIssues :: "analyzer \<Rightarrow> issue list" where
  "collectIssues st =
     titleIssues st @ descriptionIssues st @ h1Issues st @
     (if length (brokenLinks st) > 0 then [BrokenLinksFound (length (brokenLinks st))] else []) @
     (if length (urlsNotInSitemap st) > 0
      then [PagesNotInSitemap (length (urlsNotInSitemap st))] else []) @
     (if length (urlsInSitemapButNotCrawled st) > 0
      then [SitemapPagesNotCrawled (length (urlsInSitemapButNotCrawled st))] else [])"

text \<open>
  \<^verbatim>\<open>analyze(maxDepth)\<close>, in the order of the source: the crawl, the collection of
  issues, the sitemap (a rejected \<^verbatim>\<open>parseSitemap\<close> is caught and logged), the comparison,
  the report, and the assignment \<^verbatim>\<open>report.issues = issues\<close>. The result is \<open>None\<close> when
  the sitemap step never settles; the report is \<open>None\<close> when \<^verbatim>\<open>generateReport\<close> throws,
  which \<^verbatim>\<open>analyze\<close> does not catch. The PDF step that follows drives a headless browser
  and is not part of the model.
\<close>

definition analyze ::
  "env \<Rightarrow> string \<Rightarrow> int \<Rightarrow> analyzer \<Rightarrow> (report option \<times> analyzer) option" where
  "analyze w now maxDepth st =
     (let st1 = crawl w (startUrl w) 0 maxDepth st;
          issues0 = collectIssues st1;
          sitemapStep =
            (case fetchSitemap w of
               None \<Rightarrow> Some (sitemapUrls st1)
             | Some sitemapXml \<Rightarrow>
                 if sitemapXml = [] then Some (sitemapUrls st1)
                 else map_option snd (parseSitemap w sitemapXml (sitemapUrls st1)))
      in case sitemapStep of
           None \<Rightarrow> None
         | Some urls \<Rightarrow>
             (let st2 = compareCrawlWithSitemap (st1\<lparr>sitemapUrls := urls\<rparr>)
              in case generateReport w now st2 of
                   (None, st3) \<Rightarrow> Some (None, st3)
                 | (Some rep, st3) \<Rightarrow> Some (Some (rep\<lparr>issues := issues0\<rparr>), st3)))"

section \<open>AI optimizer\<close>

text \<open>
  The values \<^verbatim>\<open>JSON.parse\<close> returns, and what the optimizer exchanges with the AI
  service: a request is the method's arguments that go into the prompt; the call
  \<^verbatim>\<open>openai.responses.create\<close> either throws or returns a response whose
  \<^verbatim>\<open>output_text\<close> may be missing. \<^verbatim>\<open>JSON.parse\<close> is \<open>None\<close> when it throws.
\<close>

datatype json =
    JNull
  | JBool bool
  | JNum int
  | JStr string
  | JArr "json list"
  | JObj "(string \<times> json) list"

datatype ai_request =
    TitleRequest string "string list" nat
  | DescriptionRequest string "string list" nat
  | KeywordRequest "string list" string

datatype api_result = ApiThrows | ApiResponse "string option"

record ai_env =
  responses_create :: "ai_request \<Rightarrow> api_result"
  JSON_parse :: "string \<Rightarrow> json option"

text \<open>JavaScript truthiness of a parsed value, and \<^verbatim>\<open>parsed.field || fallback\<close>.\<close>

fun jsTruthy :: "json \<Rightarrow> bool" where
  "jsTruthy JNull = False"
| "jsTruthy (JBool b) = b"
| "jsTruthy (JNum n) = (n \<noteq> 0)"
| "jsTruthy (JStr s) = (s \<noteq> [])"
| "jsTruthy (JArr xs) = True"
| "jsTruthy (JObj kvs) = True"

fun fieldOr :: "json \<Rightarrow> string \<Rightarrow> json \<Rightarrow> json" where
  "fieldOr (JObj kvs) name fallback =
     (case map_of kvs name of
        None \<Rightarrow> fallback
      | Some v \<Rightarrow> if jsTruthy v then v else fallback)"
| "fieldOr other name fallback = fallback"

text \<open>
  \<^verbatim>\<open>cleanAndParseJSON(text)\<close>: drop what comes before the first \<^verbatim>\<open>{\<close>, drop what comes
  after the last \<^verbatim>\<open>}\<close>, parse the rest; \<open>None\<close> when it throws (no \<^verbatim>\<open>{\<close>, no
  \<^verbatim>\<open>}\<close> after it, or a parse error).
\<close>

definition cleanedText :: "string \<Rightarrow> string" where
  "cleanedText text = dropWhile (\<lambda>c. c \<noteq> CHR ''{'') text"

definition finalText :: "string \<Rightarrow> string" where
  "finalText text = rev (dropWhile (\<lambda>c. c \<noteq> CHR ''}'') (rev (cleanedText text)))"

definition cleanAndParseJSON :: "ai_env \<Rightarrow> string \<Rightarrow> json option" where
  "cleanAndParseJSON a text =
     (if cleanedText text = [] then None
      else if finalText text = [] then None
      else JSON_parse a (finalText text))"

definition optimizeTitle :: "ai_env \<Rightarrow> string \<Rightarrow> string list \<Rightarrow> nat \<Rightarrow> json" where
  "optimizeTitle a currentTitle kws maxLength =
     (case responses_create a (TitleRequest currentTitle kws maxLength) of
        ApiThrows \<Rightarrow> JStr currentTitle
      | ApiResponse output_text \<Rightarrow>
          (case output_text of
             None \<Rightarrow> JStr currentTitle
           | Some text \<Rightarrow>
               if text = [] then JStr currentTitle
               else (case cleanAndParseJSON a text of
                       None \<Rightarrow> JStr currentTitle
                     | Some parsedResponse \<Rightarrow>
                         fieldOr parsedResponse ''optimizedTitle'' (JStr currentTitle))))"

definition optimizeDescription :: "ai_env \<Rightarrow> string \<Rightarrow> string list \<Rightarrow> nat \<Rightarrow> json" where
  "optimizeDescription a currentDescription kws maxLength =
     (case responses_create a (DescriptionRequest currentDescription kws maxLength) of
        ApiThrows \<Rightarrow> JStr currentDescription
      | ApiResponse output_text \<Rightarrow>
          (case output_text of
             None \<Rightarrow> JStr currentDescription
           | Some text \<Rightarrow>
               if text = [] then JStr currentDescription
               else (case cleanAndParseJSON a text of
                       None \<Rightarrow> JStr currentDescription
                     | Some parsedResponse \<Rightarrow>
                         fieldOr parsedResponse ''optimizedDescription''
                           (JStr currentDescription))))"

definition generateKeywordSuggestions :: "ai_env \<Rightarrow> string list \<Rightarrow> string \<Rightarrow> json" where
  "generateKeywordSuggestions a currentKeywords industry =
     (case responses_create a (KeywordRequest currentKeywords industry) of
        ApiThrows \<Rightarrow> JArr (map JStr currentKeywords)
      | ApiResponse output_text \<Rightarrow>
          (case output_text of
             None \<Rightarrow> JArr (map JStr currentKeywords)
           | Some text \<Rightarrow>
               if text = [] then JArr (map JStr currentKeywords)
               else (case cleanAndParseJSON a text of
                       None \<Rightarrow> JArr (map JStr currentKeywords)
                     | Some parsedResponse \<Rightarrow>
                         fieldOr parsedResponse ''suggestions''
                           (JArr (map JStr currentKeywords)))))"

text \<open>
  A result of the service call from which the optimizer gets no parsed object: the call
  threw, the response has no output text, or the text between the first \<^verbatim>\<open>{\<close> and the
  last \<^verbatim>\<open>}\<close> is empty (which covers an empty text and a text without braces) or is
  rejected by \<^verbatim>\<open>JSON.parse\<close>.
\<close>

fun unusable :: "ai_env \<Rightarrow> api_result \<Rightarrow> bool" where
  "unusable a ApiThrows = True"
| "unusable a (ApiResponse None) = True"
| "unusable a (ApiResponse (Some text)) =
     (finalText text = [] \<or> JSON_parse a (finalText text) = None)"

text \<open>
  A service that throws on title requests, answers description requests with braces
  around text that is not JSON, and answers keyword requests with text without braces.
\<close>

definition garbledService :: ai_env where
  "garbledService =
     \<lparr>responses_create =
        (\<lambda>request. case request of
           TitleRequest t k n \<Rightarrow> ApiThrows
         | DescriptionRequest t k n \<Rightarrow> ApiResponse (Some ''{not json}'')
         | KeywordRequest k i \<Rightarrow> ApiResponse (Some ''no braces'')),
      JSON_parse = (\<lambda>text. None)\<rparr>"

text \<open>
  A service that wraps its answer in a sentence, and the behaviour of \<^verbatim>\<open>JSON.parse\<close> on
  the two texts that arise from it: the whole answer is not JSON, the part between the
  braces is.
\<close>

definition chattyAnswer :: string where
  \<open>chattyAnswer = ''Here: {"optimizedTitle":"B","optimizedDescription":"B","suggestions":"B"}''\<close>

definition chattyService :: ai_env where
  \<open>chattyService =
     \<lparr>responses_create = (\<lambda>request. ApiResponse (Some chattyAnswer)),
      JSON_parse = (\<lambda>text.
        if text = ''{"optimizedTitle":"B","optimizedDescription":"B","suggestions":"B"}''
        then Some (JObj [(''optimizedTitle'', JStr ''B''),
                         (''optimizedDescription'', JStr ''B''),
                         (''suggestions'', JStr ''B'')])
        else None)\<rparr>\<close>

section \<open>A small site\<close>

text \<open>
  A site of two pages used to run the definitions. The home page links to
  \<^verbatim>\<open>about.html\<close> (relative to the document), to an image, to a page that answers 404,
  to another host, to an anchor, to a page that answers 200 with an empty body and to a
  host that cannot be reached; one \<^verbatim>\<open>a\<close> element has no \<^verbatim>\<open>href\<close>. The second page has
  no title and links back to the home page. The sitemap is an index of two sitemaps and
  two entries that fail. The AI service is down.
\<close>

definition homePage :: dom where
  "homePage =
     \<lparr>titleText = ''Home'', metaDescription = None, metaElems = [], h1Text = ''Welcome'',
      anchorHrefs = [Some ''about.html'', Some ''/logo.png'', Some ''/gone'',
                     Some ''https://other.test/'', Some ''#top'', None, Some ''/empty'',
                     Some ''/down''],
      contentJson = []\<rparr>"

definition aboutPage :: dom where
  "aboutPage =
     \<lparr>titleText = [], metaDescription = None, metaElems = [], h1Text = [],
      anchorHrefs = [Some ''/''], contentJson = []\<rparr>"

definition blankPage :: dom where
  "blankPage =
     \<lparr>titleText = [], metaDescription = None, metaElems = [], h1Text = [],
      anchorHrefs = [], contentJson = []\<rparr>"

definition demoGet :: "string \<Rightarrow> http_result" where
  "demoGet url =
     (if url = ''https://a.test/'' then Resolved 200 ''home''
      else if url = ''https://a.test/about.html'' then Resolved 200 ''about''
      else if url = ''https://a.test/gone'' then HttpError 404
      else if url = ''https://a.test/empty'' then Resolved 200 []
      else if url = ''https://a.test/sitemap.xml'' then Resolved 200 ''index''
      else if url = ''https://a.test/s1.xml'' then Resolved 200 ''leaf1''
      else if url = ''https://a.test/s2.xml'' then Resolved 200 ''leaf2''
      else NetworkError ''ENOTFOUND'')"

definition demoParse :: "string \<Rightarrow> sitemap_doc option" where
  "demoParse xml =
     (if xml = ''index''
      then Some (SitemapIndex (Some [Some ''https://a.test/s1.xml'', None,
                                     Some ''https://a.test/s404.xml'',
                                     Some ''https://a.test/s2.xml'']))
      else if xml = ''leaf1''
      then Some (UrlSet (Some [Some ''https://a.test/'', Some ''https://a.test/new'']))
      else if xml = ''leaf2''
      then Some (UrlSet (Some [Some ''https://a.test/new'', Some ''https://a.test/gone'']))
      else None)"

definition demoSite :: env where
  "demoSite =
     \<lparr>startUrl = ''https://a.test/'',
      baseUrl = ''https://a.test'',
      axios_get = demoGet,
      cheerio_load = (\<lambda>html. if html = ''home'' then homePage
                              else if html = ''about'' then aboutPage else blankPage),
      new_URL = (\<lambda>link base. Some (if prefix ''/'' link then ''https://a.test'' @ link
                                     else ''https://a.test/'' @ link)),
      analyzePageContent = (\<lambda>content url. None),
      optimizeMetaTags = (\<lambda>pageData. None),
      parseString = demoParse,
      JSON_stringify = (\<lambda>rep. ''json''),
      htmlTemplate = (\<lambda>rep kws. ''html'')\<rparr>"



text \<open>The same site with a sitemap index that lists itself.\<close>

definition loopSite :: env where
  "loopSite =
     demoSite\<lparr>parseString :=
       (\<lambda>xml. if xml = ''index''
               then Some (SitemapIndex (Some [Some ''https://a.test/sitemap.xml'']))
               else None)\<rparr>"

text \<open>
  The same site with one more document, unrelated to its sitemap: a sitemap index at
  \<^verbatim>\<open>/self.xml\<close> that lists itself.
\<close>

definition mixedSite :: env where
  "mixedSite =
     demoSite\<lparr>axios_get :=
                (\<lambda>url. if url = ''https://a.test/self.xml'' then Resolved 200 ''self''
                       else demoGet url),
              parseString :=
                (\<lambda>xml. if xml = ''self''
                       then Some (SitemapIndex (Some [Some ''https://a.test/self.xml'']))
                       else demoParse xml)\<rparr>"


text \<open>The analyzer after \<^verbatim>\<open>crawl(startUrl, 0, 10)\<close> on this site, from a fresh analyzer.\<close>

definition demoCrawled :: analyzer where
  "demoCrawled =
  \<lparr>visitedUrls =
    [''https://a.test/'', ''https://a.test/about.html'',
     ''https://a.test/gone'', ''https://a.test/empty'',
     ''https://a.test/down''],
    staticResources = [''https://a.test/logo.png''],
    brokenLinks =
      [\<lparr>bl_url = ''https://a.test/gone'', bl_status = 404, bl_error = None\<rparr>,
       \<lparr>bl_url = ''https://a.test/down'', bl_status = 0,
          bl_error = Some ''ENOTFOUND''\<rparr>],
    internalLinks =
      [(''https://a.test/'',
        [''https://a.test/logo.png'', ''https://a.test/gone'',
         ''https://a.test/empty'', ''https://a.test/down'']),
       (''https://a.test/about.html'', [''https://a.test/''])],
    externalLinks =
      [(''https://a.test/'',
        [''https://a.test/about.html'', ''https://other.test/'']),
       (''https://a.test/about.html'', [])],
    pagesTitles = [(''https://a.test/'', ''Home'')], pagesDescriptions = [],
    pagesH1 = [(''https://a.test/'', ''Welcome'')], sitemapUrls = [],
    urlsNotInSitemap = [], urlsInSitemapButNotCrawled = [],
    statusCodes =
      [(''https://a.test/'', 200), (''https://a.test/about.html'', 200),
       (''https://a.test/gone'', 404), (''https://a.test/empty'', 200),
       (''https://a.test/down'', 0)],
    pagesTitlesWarnings = [(''https://a.test/'', 4)],
    pagesDescriptionsWarnings = [],
    pagesMetaTags =
      [(''https://a.test/'',
[]),
       (''https://a.test/about.html'',
[])],
    keywordSet = [],
    trace =
      [Visit ''https://a.test/'', HttpGet ''https://a.test/'',
       Visit ''https://a.test/about.html'',
       HttpGet ''https://a.test/about.html'', Visit ''https://a.test/gone'',
       HttpGet ''https://a.test/gone'', Visit ''https://a.test/empty'',
       HttpGet ''https://a.test/empty'', Visit ''https://a.test/down'',
       HttpGet ''https://a.test/down'']\<rparr>"

section \<open>Basic facts\<close>

declare crawl.simps [simp del]
declare sitemapRun.simps [code]

lemma set_set_add [simp]: "set (set_add x xs) = insert x (set xs)"
  by (auto simp: set_add_def)

lemma distinct_set_add [simp]: "distinct (set_add x xs) = distinct xs"
  by (auto simp: set_add_def)

lemma demo_crawl: "crawl demoSite ''https://a.test/'' 0 10 (new_analyzer []) = demoCrawled"
  unfolding demoCrawled_def by code_simp

subsection \<open>What each step leaves alone\<close>

lemma afterFetch_frame [simp]:
  "visitedUrls (afterFetch w url st) = set_add url (visitedUrls st)"
  "trace (afterFetch w url st) = trace st @ [Visit url, HttpGet url]"
  "staticResources (afterFetch w url st) = staticResources st"
  "externalLinks (afterFetch w url st) = externalLinks st"
  "internalLinks (afterFetch w url st) = internalLinks st"
  by (simp_all add: afterFetch_def fetchPage_def Let_def split: http_result.splits)

lemma analyzePage_frame [simp]:
  "visitedUrls (analyzePage w url d st) = visitedUrls st"
  "trace (analyzePage w url d st) = trace st"
  "staticResources (analyzePage w url d st) = staticResources st"
  "brokenLinks (analyzePage w url d st) = brokenLinks st"
  "statusCodes (analyzePage w url d st) = statusCodes st"
  "externalLinks (analyzePage w url d st) = externalLinks st"
  "internalLinks (analyzePage w url d st) = internalLinks st"
  by (simp_all add: analyzePage_def Let_def split: option.splits)

lemma storeTitle_frame [simp]:
  "visitedUrls (storeTitle d url st) = visitedUrls st"
  "trace (storeTitle d url st) = trace st"
  "staticResources (storeTitle d url st) = staticResources st"
  "brokenLinks (storeTitle d url st) = brokenLinks st"
  "statusCodes (storeTitle d url st) = statusCodes st"
  "externalLinks (storeTitle d url st) = externalLinks st"
  "internalLinks (storeTitle d url st) = internalLinks st"
  by (simp_all add: storeTitle_def Let_def)

lemma storeDescription_frame [simp]:
  "visitedUrls (storeDescription d url st) = visitedUrls st"
  "trace (storeDescription d url st) = trace st"
  "staticResources (storeDescription d url st) = staticResources st"
  "brokenLinks (storeDescription d url st) = brokenLinks st"
  "statusCodes (storeDescription d url st) = statusCodes st"
  "externalLinks (storeDescription d url st) = externalLinks st"
  "internalLinks (storeDescription d url st) = internalLinks st"
  by (simp_all add: storeDescription_def split: option.splits)

lemma storeMetaTags_frame [simp]:
  "visitedUrls (storeMetaTags d url st) = visitedUrls st"
  "trace (storeMetaTags d url st) = trace st"
  "staticResources (storeMetaTags d url st) = staticResources st"
  "brokenLinks (storeMetaTags d url st) = brokenLinks st"
  "statusCodes (storeMetaTags d url st) = statusCodes st"
  "externalLinks (storeMetaTags d url st) = externalLinks st"
  "internalLinks (storeMetaTags d url st) = internalLinks st"
  by (simp_all add: storeMetaTags_def)

lemma storeH1_frame [simp]:
  "visitedUrls (storeH1 d url st) = visitedUrls st"
  "trace (storeH1 d url st) = trace st"
  "staticResources (storeH1 d url st) = staticResources st"
  "brokenLinks (storeH1 d url st) = brokenLinks st"
  "statusCodes (storeH1 d url st) = statusCodes st"
  "externalLinks (storeH1 d url st) = externalLinks st"
  "internalLinks (storeH1 d url st) = internalLinks st"
  by (simp_all add: storeH1_def Let_def)

lemma storeAiSuggestions_frame [simp]:
  "visitedUrls (storeAiSuggestions w d url st) = visitedUrls st"
  "trace (storeAiSuggestions w d url st) = trace st"
  "staticResources (storeAiSuggestions w d url st) = staticResources st"
  "brokenLinks (storeAiSuggestions w d url st) = brokenLinks st"
  "statusCodes (storeAiSuggestions w d url st) = statusCodes st"
  "externalLinks (storeAiSuggestions w d url st) = externalLinks st"
  "internalLinks (storeAiSuggestions w d url st) = internalLinks st"
  by (simp_all add: storeAiSuggestions_def split: option.splits)

lemma extractMetadata_frame [simp]:
  "visitedUrls (extractMetadata w d url st) = visitedUrls st"
  "trace (extractMetadata w d url st) = trace st"
  "staticResources (extractMetadata w d url st) = staticResources st"
  "brokenLinks (extractMetadata w d url st) = brokenLinks st"
  "statusCodes (extractMetadata w d url st) = statusCodes st"
  "externalLinks (extractMetadata w d url st) = externalLinks st"
  "internalLinks (extractMetadata w d url st) = internalLinks st"
  by (simp_all add: extractMetadata_def)

lemma extractLinks_frame [simp]:
  "visitedUrls (snd (extractLinks w d url st)) = visitedUrls st"
  "trace (snd (extractLinks w d url st)) = trace st"
  "staticResources (snd (extractLinks w d url st)) = staticResources st"
  "brokenLinks (snd (extractLinks w d url st)) = brokenLinks st"
  "statusCodes (snd (extractLinks w d url st)) = statusCodes st"
  by (simp_all add: extractLinks_def split: prod.splits)

lemma afterPage_frame [simp]:
  "visitedUrls (afterPage w url d st) = visitedUrls st"
  "trace (afterPage w url d st) = trace st"
  "staticResources (afterPage w url d st) = staticResources st"
  "brokenLinks (afterPage w url d st) = brokenLinks st"
  "statusCodes (afterPage w url d st) = statusCodes st"
  by (simp_all add: afterPage_def)

subsection \<open>The traversal, one page at a time\<close>

lemma crawl_unfold:
  "crawl w url depth maxDepth st =
     (if depth > maxDepth \<or> url \<in> set (visitedUrls st) then st
      else if isStaticResource url
      then st\<lparr>staticResources := set_add url (staticResources st)\<rparr>
      else (case pageOf w url of
              None \<Rightarrow> afterFetch w url st
            | Some d \<Rightarrow>
                crawl_links w (linkSet w d url) depth maxDepth
                  (afterPage w url d (afterFetch w url st))))"
  apply (subst crawl.simps)
  apply (simp add: shouldCrawl_def pageOf_def afterFetch_def afterPage_def linkSet_def
      extractLinks_def fetchPage_def Let_def split: http_result.splits prod.splits)
  done

lemma crawl_induct [case_names crawl nil cons]:
  assumes c: "\<And>w url depth maxDepth st.
      (\<And>d. \<not> depth > maxDepth \<Longrightarrow> url \<notin> set (visitedUrls st) \<Longrightarrow> \<not> isStaticResource url \<Longrightarrow>
           pageOf w url = Some d \<Longrightarrow>
           Q w (linkSet w d url) depth maxDepth (afterPage w url d (afterFetch w url st)))
      \<Longrightarrow> P w url depth maxDepth st"
    and n: "\<And>w depth maxDepth st. Q w [] depth maxDepth st"
    and s: "\<And>w link links depth maxDepth st.
      (isInternalUrl w link \<Longrightarrow> P w link (depth + 1) maxDepth st) \<Longrightarrow>
      Q w links depth maxDepth
        (if isInternalUrl w link then crawl w link (depth + 1) maxDepth st else st) \<Longrightarrow>
      Q w (link # links) depth maxDepth st"
  shows "P w url depth maxDepth st" and "Q w links depth maxDepth st"
proof (induct w url depth maxDepth st and w links depth maxDepth st
       rule: crawl_crawl_links.induct)
  case (1 w url depth maxDepth st)
  show ?case
  proof (rule c)
    fix d
    assume a: "\<not> depth > maxDepth" "url \<notin> set (visitedUrls st)" "\<not> isStaticResource url"
      "pageOf w url = Some d"
    show "Q w (linkSet w d url) depth maxDepth (afterPage w url d (afterFetch w url st))"
      using a 1
      by (simp add: shouldCrawl_def pageOf_def afterFetch_def afterPage_def linkSet_def
          extractLinks_def fetchPage_def Let_def
          split: http_result.splits prod.splits if_splits)
  qed
next
  case (2 w depth maxDepth st)
  show ?case by (rule n)
next
  case (3 w link links depth maxDepth st)
  show ?case by (rule s) (use 3 in auto)
qed

section \<open>At-most-once visitation\<close>

lemma fetchedUrls_append [simp]: "fetchedUrls (xs @ ys) = fetchedUrls xs @ fetchedUrls ys"
  by (induction xs rule: fetchedUrls.induct) auto

lemma fetch_after_visit_step:
  assumes "fetch_after_visit tr"
  shows "fetch_after_visit (tr @ [Visit u, HttpGet u])"
  unfolding fetch_after_visit_def
proof (intro allI impI)
  fix i assume i: "i < length (tr @ [Visit u, HttpGet u])"
  consider "i < length tr" | "i = length tr" | "i = Suc (length tr)"
    using i by force
  then show "case (tr @ [Visit u, HttpGet u]) ! i of
        HttpGet u' \<Rightarrow> Visit u' \<in> set (take i (tr @ [Visit u, HttpGet u]))
      | Visit u' \<Rightarrow> True | WriteFile p c \<Rightarrow> True"
  proof cases
    case 1
    with assms show ?thesis
      by (auto simp: fetch_after_visit_def nth_append split: event.splits)
  next
    case 2
    then show ?thesis by (simp add: nth_append)
  next
    case 3
    then show ?thesis by (simp add: nth_append)
  qed
qed

lemma fetch_inv_crawl:
  "fetch_inv st \<Longrightarrow> fetch_inv (crawl w url depth maxDepth st)"
  "fetch_inv st \<Longrightarrow> fetch_inv (crawl_links w links depth maxDepth st)"
proof (induction w url depth maxDepth st and w links depth maxDepth st rule: crawl_induct)
  case (crawl w url depth maxDepth st)
  have step: "fetch_inv (afterFetch w url st)" if "url \<notin> set (visitedUrls st)"
    using crawl.prems that
    by (auto simp: fetch_inv_def fetch_after_visit_step)
  have page: "fetch_inv (afterPage w url d s)" if "fetch_inv s" for d s
    using that by (simp add: fetch_inv_def)
  show ?case
    using crawl.prems crawl.IH step page
    by (subst crawl_unfold) (auto simp: fetch_inv_def split: option.splits)
next
  case (nil w depth maxDepth st)
  then show ?case by simp
next
  case (cons w link links depth maxDepth st)
  then show ?case by (simp split: if_splits)
qed

lemma fetch_inv_new: "fetch_inv (new_analyzer kws)"
  by (simp add: fetch_inv_def new_analyzer_def fetch_after_visit_def)

text \<open>
  Claim C1. In a run started on a fresh analyzer, \<^verbatim>\<open>fetchPage\<close> requests no URL twice,
  however many pages link to it; every request for a URL comes after the URL was added
  to the visited set; and \<^verbatim>\<open>crawl\<close> on a URL that is already in the visited set
  returns at once, leaving the state (and so the list of requests) as it was.
\<close>

theorem crawl_fetches_at_most_once:
  "distinct (fetchedUrls (trace (crawl w start 0 maxDepth (new_analyzer kws)))) \<and>
   fetch_after_visit (trace (crawl w start 0 maxDepth (new_analyzer kws))) \<and>
   (url \<in> set (visitedUrls st) \<longrightarrow> crawl w url depth maxDepth st = st)"
  using fetch_inv_crawl(1) [OF fetch_inv_new, where w = w and url = start and depth = 0
      and maxDepth = maxDepth and kws1 = kws]
  by (simp add: fetch_inv_def crawl_unfold)

theorem crawl_fetches_at_most_once_witness:
  "distinct (fetchedUrls (trace (crawl demoSite ''https://a.test/'' 0 10 (new_analyzer [])))) \<and>
   fetch_after_visit (trace (crawl demoSite ''https://a.test/'' 0 10 (new_analyzer []))) \<and>
   ''https://a.test/'' \<in> set (visitedUrls demoCrawled) \<and>
   crawl demoSite ''https://a.test/'' 1 10 demoCrawled = demoCrawled"
proof -
  have v: "''https://a.test/'' \<in> set (visitedUrls demoCrawled)"
    by (simp add: demoCrawled_def)
  from crawl_fetches_at_most_once
    [where w = demoSite and start = "''https://a.test/''" and maxDepth = 10 and kws = "[]"
       and url = "''https://a.test/''" and st = demoCrawled and depth = 1] v
  show ?thesis by blast
qed

section \<open>Depth bound\<close>

lemma reachableWithin_refl [simp]: "reachableWithin w n u u"
  by (cases n) auto

lemma reachableWithin_step:
  "x \<in> set (outLinks w u) \<Longrightarrow> reachableWithin w n x v \<Longrightarrow> reachableWithin w (Suc n) u v"
  by auto

lemma visited_within:
  "v \<in> set (visitedUrls (crawl w url depth maxDepth st)) \<Longrightarrow>
     v \<in> set (visitedUrls st) \<or>
     (depth \<le> maxDepth \<and> reachableWithin w (nat (maxDepth - depth)) url v)"
  "v \<in> set (visitedUrls (crawl_links w links depth maxDepth st)) \<Longrightarrow>
     v \<in> set (visitedUrls st) \<or>
     (depth + 1 \<le> maxDepth \<and>
      (\<exists>l \<in> set links. isInternalUrl w l \<and>
         reachableWithin w (nat (maxDepth - (depth + 1))) l v))"
proof (induction w url depth maxDepth st and w links depth maxDepth st rule: crawl_induct)
  case (crawl w url depth maxDepth st)
  show ?case
  proof (cases "depth > maxDepth \<or> url \<in> set (visitedUrls st) \<or> isStaticResource url")
    case True
    with crawl.prems show ?thesis
      by (auto simp: crawl_unfold split: if_splits)
  next
    case False
    then have le: "depth \<le> maxDepth" and nv: "url \<notin> set (visitedUrls st)"
      and ns: "\<not> isStaticResource url" by auto
    show ?thesis
    proof (cases "pageOf w url")
      case None
      with crawl.prems False show ?thesis
        by (auto simp: crawl_unfold)
    next
      case (Some d)
      with crawl.prems False
      have "v \<in> set (visitedUrls (crawl_links w (linkSet w d url) depth maxDepth
                (afterPage w url d (afterFetch w url st))))"
        by (simp add: crawl_unfold)
      from crawl.IH [OF _ nv ns Some this] le
      consider "v = url" | "v \<in> set (visitedUrls st)"
        | l where "depth + 1 \<le> maxDepth" "l \<in> set (linkSet w d url)" "isInternalUrl w l"
            "reachableWithin w (nat (maxDepth - (depth + 1))) l v"
        by auto
      then show ?thesis
      proof cases
        case 1
        with le show ?thesis by simp
      next
        case 2
        then show ?thesis by simp
      next
        case 3
        have "l \<in> set (outLinks w url)"
          using 3 Some by (simp add: outLinks_def)
        moreover have "nat (maxDepth - depth) = Suc (nat (maxDepth - (depth + 1)))"
          using 3(1) by simp
        ultimately show ?thesis
          using 3 le reachableWithin_step by metis
      qed
    qed
  qed
next
  case (nil w depth maxDepth st)
  then show ?case by simp
next
  case (cons w link links depth maxDepth st)
  from cons.prems
  have p: "v \<in> set (visitedUrls (crawl_links w links depth maxDepth
             (if isInternalUrl w link then crawl w link (depth + 1) maxDepth st else st)))"
    by simp
  from cons.IH(2) [OF p]
  consider "v \<in> set (visitedUrls (if isInternalUrl w link
              then crawl w link (depth + 1) maxDepth st else st))"
    | "depth + 1 \<le> maxDepth \<and> (\<exists>l \<in> set links. isInternalUrl w l \<and>
         reachableWithin w (nat (maxDepth - (depth + 1))) l v)"
    by blast
  then show ?case
  proof cases
    case 1
    show ?thesis
    proof (cases "isInternalUrl w link")
      case True
      with 1 cons.IH(1) show ?thesis by auto
    next
      case False
      with 1 show ?thesis by simp
    qed
  next
    case 2
    then show ?thesis by auto
  qed
qed

text \<open>
  Claim C3. After a run with bound \<open>maxDepth\<close> started on a fresh analyzer, every URL in
  the visited set is at link distance at most \<open>maxDepth\<close> from the start URL, so no URL
  whose shortest distance exceeds the bound is in it; and \<^verbatim>\<open>crawl\<close> called with
  \<open>depth > maxDepth\<close> returns the state unchanged: nothing is added to the visited set and
  nothing is fetched.
\<close>

theorem crawl_respects_depth:
  "(v \<in> set (visitedUrls (crawl w start 0 maxDepth (new_analyzer kws))) \<longrightarrow>
      0 \<le> maxDepth \<and> reachableWithin w (nat maxDepth) start v) \<and>
   (depth > maxDepth \<longrightarrow> crawl w url depth maxDepth st = st)"
  using visited_within(1) [where v = v and w = w and url = start and depth = 0
      and maxDepth = maxDepth and st = "new_analyzer kws"]
  by (auto simp: crawl_unfold new_analyzer_def)


theorem crawl_respects_depth_witness:
  "''https://a.test/about.html'' \<in>
     set (visitedUrls (crawl demoSite ''https://a.test/'' 0 10 (new_analyzer []))) \<and>
   reachableWithin demoSite (nat 10) ''https://a.test/'' ''https://a.test/about.html'' \<and>
   (1::int) > 0 \<and>
   crawl demoSite ''https://a.test/about.html'' 1 0 (new_analyzer []) = new_analyzer []"
proof -
  have v: "''https://a.test/about.html'' \<in>
     set (visitedUrls (crawl demoSite ''https://a.test/'' 0 10 (new_analyzer [])))"
    by (simp add: demo_crawl demoCrawled_def)
  from crawl_respects_depth
    [where v = "''https://a.test/about.html''" and w = demoSite and start = "''https://a.test/''"
       and maxDepth = 10 and kws = "[]"]
    crawl_respects_depth
    [where depth = 1 and maxDepth = 0 and w = demoSite and url = "''https://a.test/about.html''"
       and st = "new_analyzer []"] v
  show ?thesis by simp
qed

section \<open>Static resources\<close>

lemma static_never:
  "isStaticResource u \<Longrightarrow>
     (u \<in> set (visitedUrls (crawl w url depth maxDepth st)) \<longrightarrow> u \<in> set (visitedUrls st)) \<and>
     (u \<in> set (fetchedUrls (trace (crawl w url depth maxDepth st))) \<longrightarrow>
        u \<in> set (fetchedUrls (trace st)))"
  "isStaticResource u \<Longrightarrow>
     (u \<in> set (visitedUrls (crawl_links w links depth maxDepth st)) \<longrightarrow>
        u \<in> set (visitedUrls st)) \<and>
     (u \<in> set (fetchedUrls (trace (crawl_links w links depth maxDepth st))) \<longrightarrow>
        u \<in> set (fetchedUrls (trace st)))"
proof (induction w url depth maxDepth st and w links depth maxDepth st rule: crawl_induct)
  case (crawl w url depth maxDepth st)
  show ?case
    using crawl.prems crawl.IH
    by (subst (1 2) crawl_unfold) (auto split: option.splits)
next
  case (nil w depth maxDepth st)
  then show ?case by simp
next
  case (cons w link links depth maxDepth st)
  then show ?case by (simp split: if_splits)
qed

text \<open>
  Claim C4, as the code has it. For a URL whose lower-cased text ends with one of the
  listed extensions: no call of \<^verbatim>\<open>crawl\<close>, on whatever URL, adds it to the visited set
  or requests it; and a call of \<^verbatim>\<open>crawl\<close> on it with \<open>depth \<le> maxDepth\<close>, the URL not
  being in the visited set, adds it to \<^verbatim>\<open>staticResources\<close> and changes nothing else.
\<close>

theorem static_resources_excluded:
  "isStaticResource u \<Longrightarrow>
     (u \<in> set (visitedUrls (crawl w url depth maxDepth st)) \<longrightarrow> u \<in> set (visitedUrls st)) \<and>
     (u \<in> set (fetchedUrls (trace (crawl w url depth maxDepth st))) \<longrightarrow>
        u \<in> set (fetchedUrls (trace st))) \<and>
     (depth \<le> maxDepth \<and> u \<notin> set (visitedUrls st) \<longrightarrow>
        crawl w u depth maxDepth st = st\<lparr>staticResources := set_add u (staticResources st)\<rparr>)"
  using static_never(1) [of u w url depth maxDepth st]
  by (simp add: crawl_unfold)

theorem static_resources_excluded_witness:
  "isStaticResource ''https://a.test/logo.png'' \<and>
   ''https://a.test/logo.png'' \<notin>
     set (visitedUrls (crawl demoSite ''https://a.test/'' 0 10 (new_analyzer []))) \<and>
   ''https://a.test/logo.png'' \<notin>
     set (fetchedUrls (trace (crawl demoSite ''https://a.test/'' 0 10 (new_analyzer [])))) \<and>
   crawl demoSite ''https://a.test/logo.png'' 0 10 (new_analyzer []) =
     (new_analyzer [])\<lparr>staticResources := [''https://a.test/logo.png'']\<rparr>"
proof -
  have s: "isStaticResource ''https://a.test/logo.png''"
    by (simp add: isStaticResource_def ignoreExtensions_def toLowerCase_def lowerChar_def
        suffix_to_prefix)
  from static_resources_excluded [OF s, where w = demoSite and url = "''https://a.test/''"
      and depth = 0 and maxDepth = 10 and st = "new_analyzer []"] s
  show ?thesis by (simp add: new_analyzer_def set_add_def)
qed

text \<open>
  Claim C4 as stated fails: the depth test comes first in the guard of \<^verbatim>\<open>crawl\<close>, so a
  call on a static URL beyond the depth bound returns before \<^verbatim>\<open>shouldCrawl\<close> records
  it. With \<open>maxDepth = 0\<close> the home page's link to the image is followed by a call of
  \<^verbatim>\<open>crawl\<close> at depth 1, and \<^verbatim>\<open>staticResources\<close> stays empty. Moreover the extension
  test reads the whole URL, so an image URL followed by a query string is not static
  and is fetched.
\<close>

theorem static_not_always_recorded:
  "isStaticResource ''https://a.test/logo.png'' \<and>
   ''https://a.test/logo.png'' \<notin>
     set (staticResources (crawl demoSite ''https://a.test/logo.png'' 1 0 (new_analyzer []))) \<and>
   ''https://a.test/logo.png'' \<in> set (outLinks demoSite ''https://a.test/'') \<and>
   staticResources (crawl demoSite ''https://a.test/'' 0 0 (new_analyzer [])) = [] \<and>
   \<not> isStaticResource ''https://a.test/logo.png?v=2'' \<and>
   fetchedUrls (trace (crawl demoSite ''https://a.test/logo.png?v=2'' 0 10 (new_analyzer []))) =
     [''https://a.test/logo.png?v=2'']"
  by code_simp

section \<open>Failed fetches\<close>

lemma afterFetch_brokenLinks [simp]:
  "brokenLinks (afterFetch w url st) = brokenLinks st @ brokenEntry w url"
  by (simp add: afterFetch_def fetchPage_def brokenEntry_def Let_def split: http_result.splits)

lemma broken_inv:
  "distinct (visitedUrls st) \<and> brokenLinks st = concat (map (brokenEntry w) (visitedUrls st)) \<Longrightarrow>
   distinct (visitedUrls (crawl w url depth maxDepth st)) \<and>
   brokenLinks (crawl w url depth maxDepth st) =
     concat (map (brokenEntry w) (visitedUrls (crawl w url depth maxDepth st)))"
  "distinct (visitedUrls st) \<and> brokenLinks st = concat (map (brokenEntry w) (visitedUrls st)) \<Longrightarrow>
   distinct (visitedUrls (crawl_links w links depth maxDepth st)) \<and>
   brokenLinks (crawl_links w links depth maxDepth st) =
     concat (map (brokenEntry w) (visitedUrls (crawl_links w links depth maxDepth st)))"
proof (induction w url depth maxDepth st and w links depth maxDepth st rule: crawl_induct)
  case (crawl w url depth maxDepth st)
  have step: "distinct (visitedUrls (afterFetch w url st)) \<and>
      brokenLinks (afterFetch w url st) =
        concat (map (brokenEntry w) (visitedUrls (afterFetch w url st)))"
    if "url \<notin> set (visitedUrls st)"
    using crawl.prems that by (simp add: set_add_def)
  show ?case
  proof (cases "depth > maxDepth \<or> url \<in> set (visitedUrls st) \<or> isStaticResource url")
    case True
    with crawl.prems show ?thesis by (auto simp: crawl_unfold)
  next
    case False
    show ?thesis
    proof (cases "pageOf w url")
      case None
      with False step show ?thesis by (simp add: crawl_unfold)
    next
      case (Some d)
      have "distinct (visitedUrls (afterPage w url d (afterFetch w url st))) \<and>
        brokenLinks (afterPage w url d (afterFetch w url st)) =
        concat (map (brokenEntry w) (visitedUrls (afterPage w url d (afterFetch w url st))))"
        using step False by simp
      from crawl.IH [OF _ _ _ Some this] False Some show ?thesis
        by (simp add: crawl_unfold)
    qed
  qed
next
  case (nil w depth maxDepth st)
  then show ?case by simp
next
  case (cons w link links depth maxDepth st)
  then show ?case by (simp split: if_splits)
qed

text \<open>
  Claim C5, as the code has it. A call of \<^verbatim>\<open>crawl\<close> that gets as far as the fetch
  (depth within the bound, URL not visited, not static) and whose request is rejected
  with an HTTP status appends exactly one entry with that status to \<^verbatim>\<open>brokenLinks\<close>,
  records the status, marks the URL visited and changes nothing else (no title,
  description, heading, meta tags or links are stored); a request rejected without a
  response does the same with status 0 and the error message. A request that resolves
  with a status other than 200 or with an empty body stops the call in the same way but
  appends nothing to \<^verbatim>\<open>brokenLinks\<close>. Over a whole run from a fresh analyzer,
  \<^verbatim>\<open>brokenLinks\<close> holds, in visiting order, one entry for each visited URL whose request
  was rejected and nothing else, and no URL is visited twice.
\<close>

theorem failed_fetch_recorded:
  "depth \<le> maxDepth \<Longrightarrow> url \<notin> set (visitedUrls st) \<Longrightarrow> \<not> isStaticResource url \<Longrightarrow>
   (axios_get w url = HttpError status \<longrightarrow>
      crawl w url depth maxDepth st =
        st\<lparr>visitedUrls := set_add url (visitedUrls st),
           trace := trace st @ [Visit url, HttpGet url],
           statusCodes := map_set url status (statusCodes st),
           brokenLinks := brokenLinks st @
             [\<lparr>bl_url = url, bl_status = status, bl_error = None\<rparr>]\<rparr>) \<and>
   (axios_get w url = NetworkError msg \<longrightarrow>
      crawl w url depth maxDepth st =
        st\<lparr>visitedUrls := set_add url (visitedUrls st),
           trace := trace st @ [Visit url, HttpGet url],
           statusCodes := map_set url 0 (statusCodes st),
           brokenLinks := brokenLinks st @
             [\<lparr>bl_url = url, bl_status = 0, bl_error = Some msg\<rparr>]\<rparr>) \<and>
   (axios_get w url = Resolved status body \<and> (status \<noteq> 200 \<or> body = []) \<longrightarrow>
      crawl w url depth maxDepth st =
        st\<lparr>visitedUrls := set_add url (visitedUrls st),
           trace := trace st @ [Visit url, HttpGet url],
           statusCodes := map_set url status (statusCodes st)\<rparr>) \<and>
   distinct (visitedUrls (crawl w start 0 maxDepth (new_analyzer kws))) \<and>
   brokenLinks (crawl w start 0 maxDepth (new_analyzer kws)) =
     concat (map (brokenEntry w) (visitedUrls (crawl w start 0 maxDepth (new_analyzer kws))))"
  using broken_inv(1) [where st = "new_analyzer kws" and w = w and url = start and depth = 0
      and maxDepth = maxDepth]
  by (auto simp: crawl_unfold pageOf_def afterFetch_def fetchPage_def Let_def new_analyzer_def)


theorem failed_fetch_recorded_witness:
  "crawl demoSite ''https://a.test/gone'' 0 10 (new_analyzer []) =
     (new_analyzer [])
       \<lparr>visitedUrls := [''https://a.test/gone''],
        trace := [Visit ''https://a.test/gone'', HttpGet ''https://a.test/gone''],
        statusCodes := [(''https://a.test/gone'', 404)],
        brokenLinks :=
          [\<lparr>bl_url = ''https://a.test/gone'', bl_status = 404, bl_error = None\<rparr>]\<rparr> \<and>
   crawl demoSite ''https://a.test/down'' 0 10 (new_analyzer []) =
     (new_analyzer [])
       \<lparr>visitedUrls := [''https://a.test/down''],
        trace := [Visit ''https://a.test/down'', HttpGet ''https://a.test/down''],
        statusCodes := [(''https://a.test/down'', 0)],
        brokenLinks :=
          [\<lparr>bl_url = ''https://a.test/down'', bl_status = 0,
            bl_error = Some ''ENOTFOUND''\<rparr>]\<rparr> \<and>
   crawl demoSite ''https://a.test/empty'' 0 10 (new_analyzer []) =
     (new_analyzer [])
       \<lparr>visitedUrls := [''https://a.test/empty''],
        trace := [Visit ''https://a.test/empty'', HttpGet ''https://a.test/empty''],
        statusCodes := [(''https://a.test/empty'', 200)]\<rparr> \<and>
   brokenLinks (crawl demoSite ''https://a.test/'' 0 10 (new_analyzer [])) =
     concat (map (brokenEntry demoSite)
       (visitedUrls (crawl demoSite ''https://a.test/'' 0 10 (new_analyzer []))))"
proof -
  have ns: "\<not> isStaticResource ''https://a.test/gone''"
    "\<not> isStaticResource ''https://a.test/down''"
    "\<not> isStaticResource ''https://a.test/empty''"
    by (simp_all add: isStaticResource_def ignoreExtensions_def toLowerCase_def lowerChar_def
        suffix_to_prefix)
  have g: "axios_get demoSite ''https://a.test/gone'' = HttpError 404"
    "axios_get demoSite ''https://a.test/down'' = NetworkError ''ENOTFOUND''"
    "axios_get demoSite ''https://a.test/empty'' = Resolved 200 []"
    by (simp_all add: demoSite_def demoGet_def)
  have d: "(0::int) \<le> 10" by simp
  have nv: "u \<notin> set (visitedUrls (new_analyzer []))" for u
    by (simp add: new_analyzer_def)
  from failed_fetch_recorded [OF d nv ns(1), where w = demoSite and status = 404
      and start = "''https://a.test/''" and kws = "[]"]
    failed_fetch_recorded [OF d nv ns(2), where w = demoSite and msg = "''ENOTFOUND''"]
    failed_fetch_recorded [OF d nv ns(3), where w = demoSite and status = 200 and body = "[]"]
    g
  show ?thesis by (simp add: new_analyzer_def set_add_def map_set_def)
qed

text \<open>
  Claim C5 as stated fails for the empty body: the request resolves, so \<^verbatim>\<open>fetchPage\<close>
  pushes nothing on \<^verbatim>\<open>brokenLinks\<close>.
\<close>

theorem empty_body_not_broken:
  "axios_get demoSite ''https://a.test/empty'' = Resolved 200 [] \<and>
   brokenLinks (crawl demoSite ''https://a.test/empty'' 0 10 (new_analyzer [])) = []"
  by code_simp


section \<open>Raw and normalized links\<close>













section \<open>Sitemap index expansion\<close>

lemma processSitemap_loop_result:
  "distinct urls \<Longrightarrow>
   distinct (snd (processSitemap_loop items urls)) \<and>
   set (snd (processSitemap_loop items urls)) =
     set urls \<union> {u. Some u \<in> set (takeWhile (\<lambda>i. i \<noteq> None) items)}"
  by (induction items urls rule: processSitemap_loop.induct) auto

lemma index_loop_settles:
  assumes "\<And>c s body urls. Some c \<in> set es \<Longrightarrow> axios_get w c = Resolved s body \<Longrightarrow>
             distinct urls \<Longrightarrow> settles w (ParseJob body) urls {u. listedUrl w body u}"
    and "distinct urls"
  shows "settles w (IndexJob es) urls
           {u. \<exists>c s body. Some c \<in> set es \<and> axios_get w c = Resolved s body \<and>
                 listedUrl w body u}"
  using assms
proof (induction es arbitrary: urls)
  case Nil
  then show ?case
    by (subst settles_def, subst sitemapRun.simps) simp
next
  case (Cons e es)
  have rest: "settles w (IndexJob es) urls0
           {u. \<exists>c s body. Some c \<in> set es \<and> axios_get w c = Resolved s body \<and>
                 listedUrl w body u}" if "distinct urls0" for urls0
    by (rule Cons.IH [OF _ that]) (rule Cons.prems(1), simp_all)
  show ?case
  proof (cases e)
    case None
    with rest [OF Cons.prems(2)] show ?thesis
      by (subst settles_def, subst sitemapRun.simps) (simp add: settles_def)
  next
    case (Some c)
    show ?thesis
    proof (cases "axios_get w c")
      case (Resolved s body)
      from Cons.prems(1) [of c s body urls] Some Resolved Cons.prems(2)
      obtain out1 urls1 where r1: "sitemapRun w (ParseJob body) urls = Some (out1, urls1)"
        and d1: "distinct urls1" and s1: "set urls1 = set urls \<union> {u. listedUrl w body u}"
        by (auto simp: settles_def)
      from rest [OF d1]
      obtain out2 urls2 where r2: "sitemapRun w (IndexJob es) urls1 = Some (out2, urls2)"
        and d2: "distinct urls2"
        and s2: "set urls2 = set urls1 \<union>
           {u. \<exists>c s body. Some c \<in> set es \<and> axios_get w c = Resolved s body \<and>
                 listedUrl w body u}"
        by (auto simp: settles_def)
      have run: "sitemapRun w (IndexJob (e # es)) urls = Some (out2, urls2)"
        using Some Resolved r1 r2 by (subst sitemapRun.simps) simp
      have "set urls2 = set urls \<union>
           {u. \<exists>c s body. Some c \<in> set (e # es) \<and> axios_get w c = Resolved s body \<and>
                 listedUrl w body u}"
        using s1 s2 Some Resolved by auto
      with run d2 show ?thesis by (simp add: settles_def)
    next
      case (HttpError s)
      have "sitemapRun w (IndexJob (e # es)) urls = sitemapRun w (IndexJob es) urls"
        using Some HttpError by (subst sitemapRun.simps) simp
      moreover have "{u. \<exists>c s body. Some c \<in> set (e # es) \<and> axios_get w c = Resolved s body \<and>
                 listedUrl w body u} =
            {u. \<exists>c s body. Some c \<in> set es \<and> axios_get w c = Resolved s body \<and>
                 listedUrl w body u}"
        using Some HttpError by auto
      ultimately show ?thesis using rest [OF Cons.prems(2)] by (simp add: settles_def)
    next
      case (NetworkError m)
      have "sitemapRun w (IndexJob (e # es)) urls = sitemapRun w (IndexJob es) urls"
        using Some NetworkError by (subst sitemapRun.simps) simp
      moreover have "{u. \<exists>c s body. Some c \<in> set (e # es) \<and> axios_get w c = Resolved s body \<and>
                 listedUrl w body u} =
            {u. \<exists>c s body. Some c \<in> set es \<and> axios_get w c = Resolved s body \<and>
                 listedUrl w body u}"
        using Some NetworkError by auto
      ultimately show ?thesis using rest [OF Cons.prems(2)] by (simp add: settles_def)
    qed
  qed
qed

lemma parse_settles:
  assumes "nestingEnds w xml"
  shows "distinct urls \<Longrightarrow> settles w (ParseJob xml) urls {u. listedUrl w xml u}"
  using assms unfolding nestingEnds_def
proof (induction xml arbitrary: urls rule: accp_induct_rule)
  case (1 xml)
  have IH: "settles w (ParseJob body) urls0 {u. listedUrl w body u}"
    if "childDoc w xml body" "distinct urls0" for body urls0
    using 1(2) [of body urls0] that by simp
  note prems = \<open>distinct urls\<close>
  show ?case
  proof (cases "parseString w xml")
    case None
    then have e: "{u. listedUrl w xml u} = {}"
      by (auto simp: listedUrl.simps [of w xml] childDoc_def)
    from None prems show ?thesis
      unfolding e settles_def by (subst sitemapRun.simps) simp
  next
    case (Some doc)
    show ?thesis
    proof (cases doc)
      case (SitemapIndex sitemaps)
      show ?thesis
      proof (cases sitemaps)
        case None
        with Some SitemapIndex have e: "{u. listedUrl w xml u} = {}"
          by (auto simp: listedUrl.simps [of w xml] childDoc_def)
        from None Some SitemapIndex prems show ?thesis
          unfolding e settles_def by (subst sitemapRun.simps) simp
      next
        case (Some es)
        note p = \<open>parseString w xml = Some doc\<close> SitemapIndex Some
        have ch: "childDoc w xml body" if "Some c \<in> set es" "axios_get w c = Resolved s body"
          for c s body
          using that p by (auto simp: childDoc_def)
        have "settles w (IndexJob es) urls
           {u. \<exists>c s body. Some c \<in> set es \<and> axios_get w c = Resolved s body \<and>
                 listedUrl w body u}"
          by (rule index_loop_settles) (use IH ch prems in auto)
        moreover have "{u. \<exists>c s body. Some c \<in> set es \<and> axios_get w c = Resolved s body \<and>
                 listedUrl w body u} = {u. listedUrl w xml u}"
          using p by (auto simp: listedUrl.simps [of w xml] childDoc_def)
        moreover have "sitemapRun w (ParseJob xml) urls = sitemapRun w (IndexJob es) urls"
          using p by (subst sitemapRun.simps) simp
        ultimately show ?thesis by (simp add: settles_def)
      qed
    next
      case (UrlSet urlset_url)
      note p = Some UrlSet
      show ?thesis
      proof (cases urlset_url)
        case None
        with p have e: "{u. listedUrl w xml u} = {}"
          by (auto simp: listedUrl.simps [of w xml] childDoc_def)
        from None p prems show ?thesis
          unfolding e settles_def by (subst sitemapRun.simps) (simp add: processSitemap_def)
      next
        case (Some items)
        with p have e: "{u. listedUrl w xml u} =
            {u. Some u \<in> set (takeWhile (\<lambda>i. i \<noteq> None) items)}"
          by (auto simp: listedUrl.simps [of w xml] childDoc_def)
        from Some p processSitemap_loop_result [OF prems, of items] show ?thesis
          unfolding e settles_def
          by (subst sitemapRun.simps)
             (cases "processSitemap_loop items urls", simp add: processSitemap_def)
      qed
    next
      case OtherRoot
      with Some have e: "{u. listedUrl w xml u} = {}"
        by (auto simp: listedUrl.simps [of w xml] childDoc_def)
      from OtherRoot Some prems show ?thesis
        unfolding e settles_def by (subst sitemapRun.simps) simp
    qed
  qed
qed

lemma no_children_ends:
  "(\<And>body. \<not> childDoc w xml body) \<Longrightarrow> nestingEnds w xml"
  unfolding nestingEnds_def by (rule accpI) simp

lemma children_end:
  "(\<And>body. childDoc w xml body \<Longrightarrow> nestingEnds w body) \<Longrightarrow> nestingEnds w xml"
  unfolding nestingEnds_def by (rule accpI) simp

lemma returns_ends:
  assumes "sitemapRun w job urls = Some y"
  shows "case job of
           ParseJob xml \<Rightarrow> nestingEnds w xml
         | IndexJob es \<Rightarrow>
             (\<forall>c s body. Some c \<in> set es \<and> axios_get w c = Resolved s body \<longrightarrow>
                nestingEnds w body)"
proof (rule sitemapRun.raw_induct [OF _ assms])
  fix f :: "env \<Rightarrow> sm_job \<Rightarrow> string list \<Rightarrow> (outcome \<times> string list) option"
    and w job urls wa
  assume IH: "\<And>w job urls y. f w job urls = Some y \<Longrightarrow>
      (case job of
           ParseJob xml \<Rightarrow> nestingEnds w xml
         | IndexJob es \<Rightarrow>
             (\<forall>c s body. Some c \<in> set es \<and> axios_get w c = Resolved s body \<longrightarrow>
                nestingEnds w body))"
  assume body: "(case job of
        ParseJob sitemapXml \<Rightarrow>
          (case parseString w sitemapXml of
             None \<Rightarrow> Some (Rejects, urls)
           | Some doc \<Rightarrow>
               (case doc of
                  SitemapIndex sitemaps \<Rightarrow>
                    (case sitemaps of
                       None \<Rightarrow> Some (Resolves, urls)
                     | Some entries \<Rightarrow> f w (IndexJob entries) urls)
                | UrlSet urlset_url \<Rightarrow> Some (processSitemap urlset_url urls)
                | OtherRoot \<Rightarrow> Some (Rejects, urls)))
      | IndexJob entries \<Rightarrow>
          (case entries of
             [] \<Rightarrow> Some (Resolves, urls)
           | entry # rest \<Rightarrow>
               (case entry of
                  None \<Rightarrow> f w (IndexJob rest) urls
                | Some sitemapUrl \<Rightarrow>
                    (case axios_get w sitemapUrl of
                       Resolved status body \<Rightarrow>
                         Option.bind (f w (ParseJob body) urls)
                           (\<lambda>r. f w (IndexJob rest) (snd r))
                     | HttpError status \<Rightarrow> f w (IndexJob rest) urls
                     | NetworkError msg \<Rightarrow> f w (IndexJob rest) urls)))) = Some wa"
  show "case job of
           ParseJob xml \<Rightarrow> nestingEnds w xml
         | IndexJob es \<Rightarrow>
             (\<forall>c s body. Some c \<in> set es \<and> axios_get w c = Resolved s body \<longrightarrow>
                nestingEnds w body)"
  proof (cases job)
    case (ParseJob xml)
    have "nestingEnds w xml"
    proof (cases "\<exists>es. parseString w xml = Some (SitemapIndex (Some es))")
      case False
      show ?thesis
      proof (rule no_children_ends)
        fix b show "\<not> childDoc w xml b"
          unfolding childDoc_def using False by blast
      qed
    next
      case True
      then obtain es where es: "parseString w xml = Some (SitemapIndex (Some es))" by blast
      with body ParseJob have "f w (IndexJob es) urls = Some wa" by simp
      from IH [OF this]
      have kids: "\<And>c s b. Some c \<in> set es \<Longrightarrow> axios_get w c = Resolved s b \<Longrightarrow>
                    nestingEnds w b"
        by simp
      show ?thesis
      proof (rule children_end)
        fix b assume "childDoc w xml b"
        then obtain es' c s where "parseString w xml = Some (SitemapIndex (Some es'))"
          "Some c \<in> set es'" "axios_get w c = Resolved s b"
          unfolding childDoc_def by blast
        with es kids show "nestingEnds w b" by simp
      qed
    qed
    with ParseJob show ?thesis by simp
  next
    case (IndexJob es)
    have "nestingEnds w b" if "Some c \<in> set es" "axios_get w c = Resolved s b" for c s b
    proof (cases es)
      case Nil
      with that show ?thesis by simp
    next
      case (Cons e rest)
      have tail: "f w (IndexJob rest) urls0 = Some wa \<Longrightarrow> Some c \<in> set rest \<Longrightarrow>
          nestingEnds w b" for urls0
        using IH [of w "IndexJob rest" urls0 wa] that(2) by simp
      show ?thesis
      proof (cases e)
        case None
        with body IndexJob Cons have "f w (IndexJob rest) urls = Some wa" by simp
        with tail that(1) Cons None show ?thesis by simp
      next
        case (Some c0)
        show ?thesis
        proof (cases "axios_get w c0")
          case (Resolved s0 b0)
          with body IndexJob Cons Some
          obtain r where r: "f w (ParseJob b0) urls = Some r"
            and r2: "f w (IndexJob rest) (snd r) = Some wa"
            by (auto simp: Option.bind_eq_Some_conv)
          from IH [OF r] have e0: "nestingEnds w b0" by simp
          show ?thesis
          proof (cases "c = c0")
            case True
            with that(2) Resolved e0 show ?thesis by simp
          next
            case False
            with that(1) Cons Some have "Some c \<in> set rest" by simp
            with tail [OF r2] show ?thesis by simp
          qed
        next
          case (HttpError s0)
          with body IndexJob Cons Some have r: "f w (IndexJob rest) urls = Some wa" by simp
          have "c \<noteq> c0" using that(2) HttpError by auto
          with that(1) Cons Some have "Some c \<in> set rest" by simp
          with tail [OF r] show ?thesis by simp
        next
          case (NetworkError m0)
          with body IndexJob Cons Some have r: "f w (IndexJob rest) urls = Some wa" by simp
          have "c \<noteq> c0" using that(2) NetworkError by auto
          with that(1) Cons Some have "Some c \<in> set rest" by simp
          with tail [OF r] show ?thesis by simp
        qed
      qed
    qed
    with IndexJob show ?thesis by auto
  qed
qed


lemma accp_no_cycle: "Wellfounded.accp r x \<Longrightarrow> \<not> r\<^sup>+\<^sup>+ x x"
proof (induction x rule: accp_induct_rule)
  case (1 x)
  show ?case
  proof
    assume c: "r\<^sup>+\<^sup>+ x x"
    then show False
    proof (cases rule: tranclp.cases)
      case r_into_trancl
      with 1(2) [of x] show False by blast
    next
      case (trancl_into_trancl y)
      then have "r\<^sup>+\<^sup>+ y y" by (meson tranclp_into_tranclp2)
      with 1(2) [of y] trancl_into_trancl show False by blast
    qed
  qed
qed

lemma cycle_not_ends:
  assumes "(childDoc w)\<^sup>*\<^sup>* xml x" "(childDoc w)\<^sup>+\<^sup>+ x x"
  shows "\<not> nestingEnds w xml"
proof
  assume "nestingEnds w xml"
  then have "Wellfounded.accp (childDoc w)\<inverse>\<inverse> xml" by (simp add: nestingEnds_def)
  moreover have "((childDoc w)\<inverse>\<inverse>)\<^sup>*\<^sup>* x xml"
    using assms(1) by (rule rtranclp_converseI)
  ultimately have "Wellfounded.accp (childDoc w)\<inverse>\<inverse> x" by (rule accp_downwards)
  then have "\<not> ((childDoc w)\<inverse>\<inverse>)\<^sup>+\<^sup>+ x x" by (rule accp_no_cycle)
  moreover have "((childDoc w)\<inverse>\<inverse>)\<^sup>+\<^sup>+ x x"
    using assms(2) by (simp add: tranclp_converse)
  ultimately show False by blast
qed

text \<open>
  Claim C2, as the code has it. \<^verbatim>\<open>parseSitemap\<close> returns exactly when every chain of
  child sitemaps that starts at the document it is given ends; what other documents of
  the site do is of no concern. When it returns, \<^verbatim>\<open>sitemapUrls\<close> is free of repetitions
  and holds what it held before and, for every \<^verbatim>\<open>urlset\<close> document reached, the page
  URLs of its entries up to the first entry without \<^verbatim>\<open>loc\<close> (there \<^verbatim>\<open>processSitemap\<close>
  throws and the rest of that document is dropped). When a chain does not end, in
  particular when a document that lies on a cycle of indexes can be reached, for
  instance an index whose child is the index itself, \<^verbatim>\<open>parseSitemap\<close> never returns.
\<close>

theorem sitemap_settles_iff_nesting_ends:
  "(nestingEnds w xml \<and> distinct urls \<longrightarrow>
      (\<exists>out urls'. parseSitemap w xml urls = Some (out, urls') \<and> distinct urls' \<and>
         set urls' = set urls \<union> {u. listedUrl w xml u})) \<and>
   (\<not> nestingEnds w xml \<longrightarrow> parseSitemap w xml urls = None) \<and>
   ((childDoc w)\<^sup>*\<^sup>* xml doc \<and> (childDoc w)\<^sup>+\<^sup>+ doc doc \<longrightarrow> parseSitemap w xml urls = None)"
proof -
  have 1: "\<exists>out urls'. parseSitemap w xml urls = Some (out, urls') \<and> distinct urls' \<and>
         set urls' = set urls \<union> {u. listedUrl w xml u}"
    if "nestingEnds w xml" "distinct urls"
    using parse_settles [OF that] by (simp add: settles_def parseSitemap_def)
  have 2: "parseSitemap w xml urls = None" if "\<not> nestingEnds w xml"
  proof (cases "parseSitemap w xml urls")
    case None
    then show ?thesis .
  next
    case (Some y)
    then have "sitemapRun w (ParseJob xml) urls = Some y" by (simp add: parseSitemap_def)
    from returns_ends [OF this] that show ?thesis by simp
  qed
  have 3: "parseSitemap w xml urls = None"
    if "(childDoc w)\<^sup>*\<^sup>* xml doc" "(childDoc w)\<^sup>+\<^sup>+ doc doc"
    using 2 cycle_not_ends [OF that] by blast
  from 1 2 3 show ?thesis by blast
qed


lemma mixed_childDoc:
  "childDoc mixedSite xml body \<Longrightarrow>
     (xml = ''index'' \<and> (body = ''leaf1'' \<or> body = ''leaf2'')) \<or> (xml = ''self'' \<and> body = ''self'')"
  by (auto simp: childDoc_def mixedSite_def demoSite_def demoParse_def demoGet_def
      split: if_splits)

lemma mixed_self: "childDoc mixedSite ''self'' ''self''"
  unfolding childDoc_def
  by (rule exI [of _ "[Some ''https://a.test/self.xml'']"],
      rule exI [of _ "''https://a.test/self.xml''"], rule exI [of _ 200])
     (simp add: mixedSite_def demoSite_def)

lemma mixed_index_ends: "nestingEnds mixedSite ''index''"
proof (rule children_end)
  fix body assume "childDoc mixedSite ''index'' body"
  then have b: "body = ''leaf1'' \<or> body = ''leaf2''"
    by (auto dest: mixed_childDoc)
  show "nestingEnds mixedSite body"
  proof (rule no_children_ends)
    fix c show "\<not> childDoc mixedSite body c"
      using b by (auto dest: mixed_childDoc)
  qed
qed

theorem sitemap_settles_iff_nesting_ends_witness:
  "nestingEnds mixedSite ''index'' \<and> distinct ([] :: string list) \<and>
   (\<exists>out urls'. parseSitemap mixedSite ''index'' [] = Some (out, urls') \<and> distinct urls' \<and>
      set urls' = set [] \<union> {u. listedUrl mixedSite ''index'' u}) \<and>
   \<not> nestingEnds mixedSite ''self'' \<and>
   (childDoc mixedSite)\<^sup>*\<^sup>* ''self'' ''self'' \<and> (childDoc mixedSite)\<^sup>+\<^sup>+ ''self'' ''self'' \<and>
   parseSitemap mixedSite ''self'' [] = None"
proof -
  have r: "(childDoc mixedSite)\<^sup>*\<^sup>* ''self'' ''self''" by simp
  have c: "(childDoc mixedSite)\<^sup>+\<^sup>+ ''self'' ''self''"
    using mixed_self by (rule tranclp.r_into_trancl)
  have n: "\<not> nestingEnds mixedSite ''self''"
    using r c by (rule cycle_not_ends)
  have d: "distinct ([] :: string list)" by simp
  from sitemap_settles_iff_nesting_ends
         [where w = mixedSite and xml = "''index''" and urls = "[]"]
       sitemap_settles_iff_nesting_ends
         [where w = mixedSite and xml = "''self''" and urls = "[]" and doc = "''self''"]
       mixed_index_ends d n r c
  show ?thesis by blast
qed

lemma loop_diverges_aux:
  assumes "sitemapRun w job urls = Some y"
  shows "w = loopSite \<longrightarrow>
   job \<noteq> ParseJob ''index'' \<and> job \<noteq> IndexJob [Some ''https://a.test/sitemap.xml'']"
proof (rule sitemapRun.raw_induct [OF _ assms])
  fix f :: "env \<Rightarrow> sm_job \<Rightarrow> string list \<Rightarrow> (outcome \<times> string list) option"
    and w job urls wa
  assume IH: "\<And>w job urls y. f w job urls = Some y \<Longrightarrow>
      w = loopSite \<longrightarrow>
      job \<noteq> ParseJob ''index'' \<and> job \<noteq> IndexJob [Some ''https://a.test/sitemap.xml'']"
  assume body: "(case job of
        ParseJob sitemapXml \<Rightarrow>
          (case parseString w sitemapXml of
             None \<Rightarrow> Some (Rejects, urls)
           | Some doc \<Rightarrow>
               (case doc of
                  SitemapIndex sitemaps \<Rightarrow>
                    (case sitemaps of
                       None \<Rightarrow> Some (Resolves, urls)
                     | Some entries \<Rightarrow> f w (IndexJob entries) urls)
                | UrlSet urlset_url \<Rightarrow> Some (processSitemap urlset_url urls)
                | OtherRoot \<Rightarrow> Some (Rejects, urls)))
      | IndexJob entries \<Rightarrow>
          (case entries of
             [] \<Rightarrow> Some (Resolves, urls)
           | entry # rest \<Rightarrow>
               (case entry of
                  None \<Rightarrow> f w (IndexJob rest) urls
                | Some sitemapUrl \<Rightarrow>
                    (case axios_get w sitemapUrl of
                       Resolved status body \<Rightarrow>
                         Option.bind (f w (ParseJob body) urls)
                           (\<lambda>r. f w (IndexJob rest) (snd r))
                     | HttpError status \<Rightarrow> f w (IndexJob rest) urls
                     | NetworkError msg \<Rightarrow> f w (IndexJob rest) urls)))) = Some wa"
  show "w = loopSite \<longrightarrow>
      job \<noteq> ParseJob ''index'' \<and> job \<noteq> IndexJob [Some ''https://a.test/sitemap.xml'']"
  proof (intro impI conjI notI)
    assume w: "w = loopSite" and j: "job = ParseJob ''index''"
    from body w j
    have "f loopSite (IndexJob [Some ''https://a.test/sitemap.xml'']) urls = Some wa"
      by (simp add: loopSite_def demoSite_def)
    from IH [OF this] show False by simp
  next
    assume w: "w = loopSite" and j: "job = IndexJob [Some ''https://a.test/sitemap.xml'']"
    from body w j
    obtain r where "f loopSite (ParseJob ''index'') urls = Some r"
      by (auto simp: loopSite_def demoSite_def demoGet_def Option.bind_eq_Some_conv)
    from IH [OF this] show False by simp
  qed
qed

text \<open>
  Claim C2 as stated fails: nothing in \<^verbatim>\<open>parseSitemap\<close> or \<^verbatim>\<open>processSitemapIndex\<close>
  remembers which sitemaps were already fetched. On the site whose
  \<^verbatim>\<open>/sitemap.xml\<close> is an index listing \<^verbatim>\<open>/sitemap.xml\<close>, \<^verbatim>\<open>parseSitemap\<close> never
  returns, and so neither does \<^verbatim>\<open>analyze\<close>.
\<close>

theorem self_listing_index_never_settles:
  "fetchSitemap loopSite = Some ''index'' \<and>
   parseString loopSite ''index'' = Some (SitemapIndex (Some [Some ''https://a.test/sitemap.xml''])) \<and>
   axios_get loopSite ''https://a.test/sitemap.xml'' = Resolved 200 ''index'' \<and>
   parseSitemap loopSite ''index'' [] = None \<and>
   analyze loopSite ''now'' 10 (new_analyzer []) = None"
proof -
  have p: "parseSitemap loopSite ''index'' urls = None" for urls
    using loop_diverges_aux [of loopSite "ParseJob ''index''" urls]
    by (cases "parseSitemap loopSite ''index'' urls") (auto simp: parseSitemap_def)
  have f: "fetchSitemap loopSite = Some ''index''"
    by (simp add: fetchSitemap_def loopSite_def demoSite_def demoGet_def)
  show ?thesis
    using p f
    by (simp add: analyze_def Let_def loopSite_def [symmetric])
       (simp add: loopSite_def demoSite_def demoGet_def)
qed



section \<open>Report aggregation\<close>



lemma templateThrows_state:
  "templateThrows (buildReport w now st) (keywordSet st) =
     (\<exists>url \<in> set (visitedUrls st). pageThrows (keywordSet st) (pageRecord st url))"
  by (simp add: templateThrows_def buildReport_def list_ex_iff)





section \<open>The issues list\<close>

text \<open>
  Claim C7, evaluated on the small site. At the end of the run four visited pages have
  no title, five no description, four no heading, three crawled pages are not in the
  sitemap and one sitemap URL was not crawled, yet \<^verbatim>\<open>issues\<close> has two entries only: the
  title length of the home page and the count of broken links. The loops of \<^verbatim>\<open>analyze\<close>
  run over \<^verbatim>\<open>pagesTitles\<close>, \<^verbatim>\<open>pagesDescriptions\<close> and \<^verbatim>\<open>pagesH1\<close>, which hold only
  the pages that have the field, and the two sitemap tests run before the sitemap is
  fetched and compared.
\<close>

theorem issues_miss_detected_problems:
  "map_option
     (\<lambda>(rep, st).
        map_option
          (\<lambda>r. (issues r,
                 urlsWithoutTitle (crawlStats r),
                 urlsWithoutDescription (crawlStats r),
                 urlsWithoutH1 (crawlStats r),
                 ss_urlsNotInSitemap (sitemapStats r),
                 ss_urlsInSitemapButNotCrawled (sitemapStats r)))
          rep)
     (analyze demoSite ''now'' 10 (new_analyzer [])) =
   Some (Some
     ([InvalidTitleLength 4 ''https://a.test/'', BrokenLinksFound 2],
      [''https://a.test/about.html'', ''https://a.test/gone'', ''https://a.test/empty'',
       ''https://a.test/down''],
      [''https://a.test/'', ''https://a.test/about.html'', ''https://a.test/gone'',
       ''https://a.test/empty'', ''https://a.test/down''],
      [''https://a.test/about.html'', ''https://a.test/gone'', ''https://a.test/empty'',
       ''https://a.test/down''],
      [''https://a.test/about.html'', ''https://a.test/empty'', ''https://a.test/down''],
      [''https://a.test/new'']))"
  by code_simp

section \<open>Page records\<close>

lemma pageMeta_urls:
  "map pm_url (pageMeta (buildReport w now st)) = visitedUrls st"
  by (simp add: buildReport_def pageRecord_def comp_def)

text \<open>
  Claim C8, evaluated on the small site. The fetch of \<^verbatim>\<open>/down\<close> fails without a
  response: \<^verbatim>\<open>statusCodes\<close> and \<^verbatim>\<open>brokenLinks\<close> record the status 0, and the page's
  record in the report carries \<^verbatim>\<open>"unknown"\<close>, because \<^verbatim>\<open>||\<close> takes 0 for a missing
  value. (The report built has one record per visited URL, in visiting order, as
  \<open>pageMeta_urls\<close> says.)
\<close>

theorem transport_failure_reported_unknown:
  "map_get (statusCodes (crawl demoSite ''https://a.test/'' 0 10 (new_analyzer [])))
     ''https://a.test/down'' = Some 0 \<and>
   \<lparr>bl_url = ''https://a.test/down'', bl_status = 0, bl_error = Some ''ENOTFOUND''\<rparr> \<in>
     set (brokenLinks (crawl demoSite ''https://a.test/'' 0 10 (new_analyzer []))) \<and>
   map_option
     (\<lambda>rep. map pm_status (filter (\<lambda>p. pm_url p = ''https://a.test/down'') (pageMeta rep)))
     (fst (generateReport demoSite now
        (crawl demoSite ''https://a.test/'' 0 10 (new_analyzer [])))) = Some [StatusUnknown]"
  by (simp add: demo_crawl generateReport_def generateHtmlReport_def Let_def
        templateThrows_state)
     (simp add: demoCrawled_def buildReport_def pageRecord_def reportStatus_def map_get_def
        badContentAnalysis_def pageThrows_def)

section \<open>AI fallback\<close>

lemma clean_fails:
  "finalText text = [] \<or> JSON_parse a (finalText text) = None \<Longrightarrow>
   cleanAndParseJSON a text = None"
  by (auto simp: cleanAndParseJSON_def)

lemma optimizeTitle_fallback:
  "unusable a (responses_create a (TitleRequest title kws n)) \<Longrightarrow>
   optimizeTitle a title kws n = JStr title"
  by (cases "responses_create a (TitleRequest title kws n)" rule: unusable.cases [of "(a, _)"])
     (auto simp: optimizeTitle_def clean_fails)

lemma optimizeDescription_fallback:
  "unusable a (responses_create a (DescriptionRequest description kws n)) \<Longrightarrow>
   optimizeDescription a description kws n = JStr description"
  by (cases "responses_create a (DescriptionRequest description kws n)"
        rule: unusable.cases [of "(a, _)"])
     (auto simp: optimizeDescription_def clean_fails)

lemma generateKeywordSuggestions_fallback:
  "unusable a (responses_create a (KeywordRequest kws industry)) \<Longrightarrow>
   generateKeywordSuggestions a kws industry = JArr (map JStr kws)"
  by (cases "responses_create a (KeywordRequest kws industry)"
        rule: unusable.cases [of "(a, _)"])
     (auto simp: generateKeywordSuggestions_def clean_fails)

text \<open>
  Claim C9, as the code has it. When the service call throws, or the response has no
  output text, or the part of the text from its first \<^verbatim>\<open>{\<close> to its last \<^verbatim>\<open>}\<close> is
  missing or is not valid JSON, \<^verbatim>\<open>optimizeTitle\<close> returns the original title,
  \<^verbatim>\<open>optimizeDescription\<close> the original description and
  \<^verbatim>\<open>generateKeywordSuggestions\<close> the original keyword list; each of them returns a value
  in every case.
\<close>

theorem ai_fallback:
  "(unusable a (responses_create a (TitleRequest title kws n)) \<longrightarrow>
      optimizeTitle a title kws n = JStr title) \<and>
   (unusable a (responses_create a (DescriptionRequest description kws n)) \<longrightarrow>
      optimizeDescription a description kws n = JStr description) \<and>
   (unusable a (responses_create a (KeywordRequest kws industry)) \<longrightarrow>
      generateKeywordSuggestions a kws industry = JArr (map JStr kws))"
  by (simp add: optimizeTitle_fallback optimizeDescription_fallback
      generateKeywordSuggestions_fallback)

theorem ai_fallback_witness:
  "unusable garbledService (responses_create garbledService (TitleRequest ''A'' [''k''] 60)) \<and>
   optimizeTitle garbledService ''A'' [''k''] 60 = JStr ''A'' \<and>
   unusable garbledService
     (responses_create garbledService (DescriptionRequest ''D'' [''k''] 60)) \<and>
   optimizeDescription garbledService ''D'' [''k''] 60 = JStr ''D'' \<and>
   unusable garbledService (responses_create garbledService (KeywordRequest [''k''] ''i'')) \<and>
   generateKeywordSuggestions garbledService [''k''] ''i'' = JArr (map JStr [''k''])"
proof -
  have u: "unusable garbledService (responses_create garbledService (TitleRequest ''A'' [''k''] 60))"
    "unusable garbledService
       (responses_create garbledService (DescriptionRequest ''D'' [''k''] 60))"
    "unusable garbledService (responses_create garbledService (KeywordRequest [''k''] ''i''))"
    by (simp_all add: garbledService_def finalText_def cleanedText_def)
  from ai_fallback [where a = garbledService and title = "''A''" and kws = "[''k'']" and n = 60
      and description = "''D''" and industry = "''i''"] u
  show ?thesis by blast
qed

text \<open>
  Claim C9 as stated fails: an answer that is not JSON as a whole, but has a JSON object
  between its first \<^verbatim>\<open>{\<close> and its last \<^verbatim>\<open>}\<close>, is used and the original value is not
  returned.
\<close>

theorem chatty_answer_is_used:
  \<open>JSON_parse chattyService chattyAnswer = None \<and>
   optimizeTitle chattyService ''A'' [''k''] 60 = JStr ''B'' \<and>
   optimizeDescription chattyService ''A'' [''k''] 160 = JStr ''B'' \<and>
   generateKeywordSuggestions chattyService [''k''] ''hydraulika'' = JStr ''B''\<close>
  by (simp add: chattyService_def chattyAnswer_def optimizeTitle_def optimizeDescription_def
      generateKeywordSuggestions_def cleanAndParseJSON_def finalText_def cleanedText_def)

end
